theory Spec2Isabelle
  imports Complex_Main
begin

section \<open>Text, tokens and profiles (models/models.go)\<close>

text \<open>
  A Go string is a sequence of bytes. Read as UTF-8, the way a range loop, the conversion to
  a slice of runes and the strings package read it, it splits in exactly one way into code
  points, each from a valid encoding, and single bytes that belong to no valid encoding.
  The command line and the token values are modelled by this sequence. Strings that the code
  only compares or hands to the standard library (token types, modifier names, the entries
  of AppliesTo, the Probability and Offset fields, raw JSON) are byte strings.
\<close>

type_synonym rune = nat

datatype gochar = Rune rune | BadByte char

type_synonym gostring = "gochar list"

text \<open>utf8.RuneError, the rune U+FFFD that Go reads for a byte of no valid encoding.\<close>

definition RuneError :: rune where "RuneError = 65533"

fun rune_of :: "gochar \<Rightarrow> rune" where
  "rune_of (Rune r) = r"
| "rune_of (BadByte b) = RuneError"

text \<open>The conversion \<^verbatim>\<open>[]rune(s)\<close>.\<close>

definition runes_of :: "gostring \<Rightarrow> rune list" where
  "runes_of s = map rune_of s"

text \<open>
  The conversion \<^verbatim>\<open>string(runes)\<close>: a rune that is a surrogate or lies above U+10FFFF is
  encoded as U+FFFD.
\<close>

definition valid_rune :: "rune \<Rightarrow> bool" where
  "valid_rune r \<longleftrightarrow> r < 55296 \<or> (57343 < r \<and> r \<le> 1114111)"

definition string_of :: "rune list \<Rightarrow> gostring" where
  "string_of rs = map (\<lambda>r. Rune (if valid_rune r then r else RuneError)) rs"

text \<open>An ASCII literal as a Go string.\<close>

definition text_of :: "string \<Rightarrow> gostring" where
  "text_of s = map (\<lambda>c. Rune (of_char c)) s"

type_synonym TokenType = string

definition TokenTypeCommand :: TokenType where "TokenTypeCommand = ''command''"
definition TokenTypeArgument :: TokenType where "TokenTypeArgument = ''argument''"
definition TokenTypeValue :: TokenType where "TokenTypeValue = ''value''"
definition TokenTypePath :: TokenType where "TokenTypePath = ''path''"
definition TokenTypeURL :: TokenType where "TokenTypeURL = ''url''"

record Token =
  Type :: TokenType
  Value :: gostring

type_synonym RawMessage = string

record ArgumentDefinition =
  Flags :: "gostring list"
  ValueCount :: int

record ProfileParameters =
  Arguments :: "ArgumentDefinition list"
  Modifiers :: "string \<rightharpoonup> RawMessage"

record Profile =
  Platform :: string
  Parameters :: ProfileParameters

record ProfileFile =
  Profiles :: "Profile list"

section \<open>Errors\<close>

datatype liberror = LibError string

datatype error =
    ErrNotImplemented
  | errorString string
  | wrapError string error
  | External liberror

fun errors_Is :: "error \<Rightarrow> error \<Rightarrow> bool" where
  "errors_Is (wrapError m e) t = (wrapError m e = t \<or> errors_Is e t)"
| "errors_Is e t = (e = t)"

section \<open>The parts of the Go standard library that the engine calls\<close>

definition MaxASCII :: rune where "MaxASCII = 127"

text \<open>unicode.IsSpace: the Latin-1 cases and the White_Space property beyond.\<close>

definition unicode_IsSpace :: "rune \<Rightarrow> bool" where
  "unicode_IsSpace r \<longleftrightarrow>
     (9 \<le> r \<and> r \<le> 13) \<or> r = 32 \<or> r = 133 \<or> r = 160 \<or> r = 5760 \<or>
     (8192 \<le> r \<and> r \<le> 8202) \<or> r = 8232 \<or> r = 8233 \<or> r = 8239 \<or> r = 8287 \<or> r = 12288"

text \<open>
  strings.Fields: the maximal runs of runes that are not white space, in order; a byte of
  no valid encoding is read as U+FFFD and is kept as it is. The first argument is the field
  being read.
\<close>

fun fields_from :: "gostring \<Rightarrow> gostring \<Rightarrow> gostring list" where
  "fields_from cur [] = (if cur = [] then [] else [cur])"
| "fields_from cur (r # rs) =
     (if unicode_IsSpace (rune_of r)
      then (if cur = [] then fields_from [] rs else cur # fields_from [] rs)
      else fields_from (cur @ [r]) rs)"

definition strings_Fields :: "gostring \<Rightarrow> gostring list" where
  "strings_Fields s = fields_from [] s"

fun strings_Join :: "gostring list \<Rightarrow> gostring \<Rightarrow> gostring" where
  "strings_Join [] sep = []"
| "strings_Join [x] sep = x"
| "strings_Join (x # y # ys) sep = x @ sep @ strings_Join (y # ys) sep"

definition strings_TrimSpace :: "gostring \<Rightarrow> gostring" where
  "strings_TrimSpace s =
     rev (dropWhile (\<lambda>c. unicode_IsSpace (rune_of c))
            (rev (dropWhile (\<lambda>c. unicode_IsSpace (rune_of c)) s)))"

text \<open>
  float64 values: the finite ones denote real numbers; a comparison with NaN is false.
\<close>

datatype float64 = NaN | NegInf | Fin real | PosInf

fun f64_less :: "float64 \<Rightarrow> float64 \<Rightarrow> bool" where
  "f64_less (Fin a) (Fin b) = (a < b)"
| "f64_less NegInf (Fin b) = True"
| "f64_less NegInf PosInf = True"
| "f64_less (Fin a) PosInf = True"
| "f64_less a b = False"

record BaseModifierConfig =
  AppliesTo :: "string list"
  Probability :: string

text \<open>charinsert.Config embeds BaseModifierConfig and adds two fields.\<close>

record charinsert_Config = BaseModifierConfig +
  Characters :: "gostring list"
  Offset :: string

text \<open>
  The standard library is not part of the repository. Its decoders and parsers, and the
  Unicode case tables beyond ASCII, are parameters of the model:
  json.Unmarshal into a struct that embeds only BaseModifierConfig (randomcase.Config and
  the target of modifiers.ParseConfig), json.Unmarshal into charinsert.Config,
  strconv.ParseFloat with bit size 64, strconv.Atoi, and for runes above MaxASCII the
  results of unicode.IsUpper, unicode.ToUpper, unicode.ToLower and unicode.IsLetter.
\<close>

record stdlib =
  json_Unmarshal_Base :: "RawMessage \<Rightarrow> liberror + BaseModifierConfig"
  json_Unmarshal_CharInsert :: "RawMessage \<Rightarrow> liberror + charinsert_Config"
  strconv_ParseFloat :: "string \<Rightarrow> liberror + float64"
  strconv_Atoi :: "string \<Rightarrow> liberror + int"
  table_IsUpper :: "rune \<Rightarrow> bool"
  table_ToUpper :: "rune \<Rightarrow> rune"
  table_ToLower :: "rune \<Rightarrow> rune"
  table_IsLetter :: "rune \<Rightarrow> bool"

definition unicode_IsUpper :: "stdlib \<Rightarrow> rune \<Rightarrow> bool" where
  "unicode_IsUpper L r = (if r \<le> MaxASCII then 65 \<le> r \<and> r \<le> 90 else table_IsUpper L r)"

definition unicode_ToUpper :: "stdlib \<Rightarrow> rune \<Rightarrow> rune" where
  "unicode_ToUpper L r =
     (if r \<le> MaxASCII then (if 97 \<le> r \<and> r \<le> 122 then r - 32 else r) else table_ToUpper L r)"

definition unicode_ToLower :: "stdlib \<Rightarrow> rune \<Rightarrow> rune" where
  "unicode_ToLower L r =
     (if r \<le> MaxASCII then (if 65 \<le> r \<and> r \<le> 90 then r + 32 else r) else table_ToLower L r)"

text \<open>unicode.IsLetter, which the tests of RandomCase use to tell the letters.\<close>

definition unicode_IsLetter :: "stdlib \<Rightarrow> rune \<Rightarrow> bool" where
  "unicode_IsLetter L r =
     (if r \<le> MaxASCII then (65 \<le> r \<and> r \<le> 90) \<or> (97 \<le> r \<and> r \<le> 122)
      else table_IsLetter L r)"

text \<open>
  The process-wide random source is the sequence of the values that the successive calls of
  rand.Float64 return; a call takes the first and leaves the rest. Go documents the values
  to lie in the half-open interval from 0 to 1.
\<close>

type_synonym rand = "nat \<Rightarrow> real"

definition rand_Float64 :: "rand \<Rightarrow> real \<times> rand" where
  "rand_Float64 g = (g 0, \<lambda>n. g (Suc n))"

definition rand_in_range :: "rand \<Rightarrow> bool" where
  "rand_in_range g \<longleftrightarrow> (\<forall>n. 0 \<le> g n \<and> g n < 1)"

section \<open>Tokenize and Render (engine/engine.go)\<close>

definition Tokenize :: "gostring \<Rightarrow> Profile \<Rightarrow> error + Token list" where
  "Tokenize command profile =
     (let parts = strings_Fields command in
      if length parts = 0 then Inl (errorString ''tokenize: empty command'')
      else Inr (\<lparr>Type = TokenTypeCommand, Value = hd parts\<rparr> #
                map (\<lambda>p. \<lparr>Type = TokenTypeArgument, Value = p\<rparr>) (tl parts)))"

definition Render :: "Token list \<Rightarrow> gostring" where
  "Render tokens = strings_Join (map Value tokens) [Rune 32]"

definition pickProfile :: "ProfileFile \<Rightarrow> Profile" where
  "pickProfile pf = hd (Profiles pf)"

section \<open>The modifier contract and registry (engine/modifiers/modifier.go)\<close>

text \<open>
  Apply takes the token sequence, the raw configuration and the random source, and returns
  the token sequence, the error (None for nil) and the random source it leaves.
\<close>

record Modifier =
  Name :: string
  Description :: string
  Apply :: "Token list \<Rightarrow> RawMessage \<Rightarrow> rand \<Rightarrow> (Token list \<times> error option) \<times> rand"

definition ParseConfig :: "stdlib \<Rightarrow> RawMessage \<Rightarrow> liberror + BaseModifierConfig" where
  "ParseConfig L raw = json_Unmarshal_Base L raw"

section \<open>RandomCase (engine/modifiers/randomcase/random_case.go, lines 106 to 140)\<close>

text \<open>The case flip of one rune (lines 129 to 133).\<close>

definition flip_case :: "stdlib \<Rightarrow> rune \<Rightarrow> rune" where
  "flip_case L r = (if unicode_IsUpper L r then unicode_ToLower L r else unicode_ToUpper L r)"

text \<open>The inner loop over the runes of one eligible token: one draw for each rune.\<close>

fun flip_runes :: "stdlib \<Rightarrow> float64 \<Rightarrow> rune list \<Rightarrow> rand \<Rightarrow> rune list \<times> rand" where
  "flip_runes L probability [] g = ([], g)"
| "flip_runes L probability (r # rs) g =
     (let (x, g1) = rand_Float64 g;
          r' = (if f64_less (Fin x) probability then flip_case L r else r);
          (rs', g2) = flip_runes L probability rs g1
      in (r' # rs', g2))"

text \<open>
  The outer loop over the tokens; an entry of out starts as the copy of the input's. The
  value of an eligible token is converted to runes and back, whether or not a rune flips.
\<close>

fun RandomCase_tokens ::
  "stdlib \<Rightarrow> BaseModifierConfig \<Rightarrow> float64 \<Rightarrow> Token list \<Rightarrow> rand \<Rightarrow> Token list \<times> rand" where
  "RandomCase_tokens L cfgM probability [] g = ([], g)"
| "RandomCase_tokens L cfgM probability (t # ts) g =
     (if Type t \<notin> set (AppliesTo cfgM)
      then (let (out, g1) = RandomCase_tokens L cfgM probability ts g in (t # out, g1))
      else (let (runes, g1) = flip_runes L probability (runes_of (Value t)) g;
                (out, g2) = RandomCase_tokens L cfgM probability ts g1
            in (t\<lparr>Value := string_of runes\<rparr> # out, g2)))"

definition RandomCase_Apply ::
  "stdlib \<Rightarrow> Token list \<Rightarrow> RawMessage \<Rightarrow> rand \<Rightarrow> (Token list \<times> error option) \<times> rand" where
  "RandomCase_Apply L tokens cfg g =
     (case json_Unmarshal_Base L cfg of
        Inl err \<Rightarrow> ((tokens, Some (wrapError ''unmarshal config: %w'' (External err))), g)
      | Inr cfgM \<Rightarrow>
         (case strconv_ParseFloat L (Probability cfgM) of
            Inl err \<Rightarrow> ((tokens, Some (wrapError ''parse probability: %w'' (External err))), g)
          | Inr probability \<Rightarrow>
             if f64_less probability (Fin 0) \<or> f64_less (Fin 1) probability
             then ((tokens, Some (errorString ''probability must be between 0 and 1'')), g)
             else (let (out, g1) = RandomCase_tokens L cfgM probability tokens g
                   in ((out, None), g1))))"

definition RandomCase :: "stdlib \<Rightarrow> Modifier" where
  "RandomCase L =
     \<lparr>Name = ''RandomCase'', Description = ''Randomly flip UPPER/lower case per character'',
      Apply = RandomCase_Apply L\<rparr>"

section \<open>CharacterInsertion (engine/modifiers/charinsert, the revision that parses its configuration)\<close>

text \<open>
  The two calls of fmt.Println write to the standard output and leave the results alone.
  In the range check err is nil, so fmt.Errorf has no error to wrap and returns a plain
  error.
\<close>

definition CharacterInsertion_Apply ::
  "stdlib \<Rightarrow> Token list \<Rightarrow> RawMessage \<Rightarrow> rand \<Rightarrow> (Token list \<times> error option) \<times> rand" where
  "CharacterInsertion_Apply L tokens cfg g =
     (case json_Unmarshal_CharInsert L cfg of
        Inl err \<Rightarrow> ((tokens, Some (wrapError ''unmarshal config: %w'' (External err))), g)
      | Inr cfgM \<Rightarrow>
         (case strconv_ParseFloat L (Probability cfgM) of
            Inl err \<Rightarrow> ((tokens, Some (wrapError ''parse probability: %w'' (External err))), g)
          | Inr probability \<Rightarrow>
             if f64_less probability (Fin 0) \<or> f64_less (Fin 1) probability
             then ((tokens, Some (errorString ''probability must be between 0 and 1: %!w(<nil>)'')), g)
             else (case strconv_Atoi L (Offset cfgM) of
                     Inl err \<Rightarrow> ((tokens, Some (wrapError ''parse offset: %w'' (External err))), g)
                   | Inr offset \<Rightarrow> ((tokens, Some ErrNotImplemented), g))))"

definition CharacterInsertion :: "stdlib \<Rightarrow> Modifier" where
  "CharacterInsertion L =
     \<lparr>Name = ''CharacterInsertion'',
      Description = ''Insert invisible Unicode characters into tokens'',
      Apply = CharacterInsertion_Apply L\<rparr>"

section \<open>The modifiers that are stubs\<close>

definition stub_Apply ::
  "Token list \<Rightarrow> RawMessage \<Rightarrow> rand \<Rightarrow> (Token list \<times> error option) \<times> rand" where
  "stub_Apply tokens cfg g = ((tokens, Some ErrNotImplemented), g)"

definition FilePathTransformer :: Modifier where
  "FilePathTransformer =
     \<lparr>Name = ''FilePathTransformer'',
      Description = ''Add path traversal, swap slashes, or duplicate separators'',
      Apply = stub_Apply\<rparr>"

definition OptionCharSubstitution :: Modifier where
  "OptionCharSubstitution =
     \<lparr>Name = ''OptionCharSubstitution'',
      Description = ''Replace - or / with a lookalike Unicode option char'',
      Apply = stub_Apply\<rparr>"

definition QuoteInsertion :: Modifier where
  "QuoteInsertion =
     \<lparr>Name = ''QuoteInsertion'', Description = ''Insert empty quote pairs inside tokens'',
      Apply = stub_Apply\<rparr>"

definition Regex :: Modifier where
  "Regex =
     \<lparr>Name = ''Regex'', Description = ''Apply regex find-and-replace substitutions'',
      Apply = stub_Apply\<rparr>"

definition ReorderArgs :: Modifier where
  "ReorderArgs =
     \<lparr>Name = ''ReorderArgs'', Description = ''Shuffle argument order (keeps flag-value pairs)'',
      Apply = stub_Apply\<rparr>"

definition Sed :: Modifier where
  "Sed =
     \<lparr>Name = ''Sed'', Description = ''Replace chars with Unicode lookalikes via sed rules'',
      Apply = stub_Apply\<rparr>"

definition Shorthands :: Modifier where
  "Shorthands =
     \<lparr>Name = ''Shorthands'', Description = ''Abbreviate flags to shortest unambiguous prefix'',
      Apply = stub_Apply\<rparr>"

definition UrlTransformer :: Modifier where
  "UrlTransformer =
     \<lparr>Name = ''UrlTransformer'', Description = ''Encode IPs and rewrite URL path structure'',
      Apply = stub_Apply\<rparr>"

text \<open>
  The dash in the description of ReorderArgs is written as a hyphen here.
\<close>

text \<open>
  modifiers.All(): the registry in registration order, which is the order in which the
  package all imports the modifier packages.
\<close>

definition modifiers_All :: "stdlib \<Rightarrow> Modifier list" where
  "modifiers_All L =
     [CharacterInsertion L, FilePathTransformer, OptionCharSubstitution, QuoteInsertion,
      RandomCase L, Regex, ReorderArgs, Sed, Shorthands, UrlTransformer]"

section \<open>Obfuscate (engine/engine.go)\<close>

record ObfuscateResult =
  Output :: gostring
  Applied :: "string list"
  Skipped :: "string list"
  Errors :: "string \<rightharpoonup> error"

definition zero_ObfuscateResult :: ObfuscateResult where
  "zero_ObfuscateResult = \<lparr>Output = [], Applied = [], Skipped = [], Errors = Map.empty\<rparr>"

text \<open>Indexing a map of booleans with an absent key gives false.\<close>

definition enabled_at :: "(string \<rightharpoonup> bool) \<Rightarrow> string \<Rightarrow> bool" where
  "enabled_at enabled name = (case enabled name of None \<Rightarrow> False | Some b \<Rightarrow> b)"

text \<open>The loop of step 2 over the registered modifiers.\<close>

fun apply_modifiers ::
  "Profile \<Rightarrow> (string \<rightharpoonup> bool) \<Rightarrow> Modifier list \<Rightarrow> Token list \<Rightarrow> ObfuscateResult \<Rightarrow> rand \<Rightarrow>
   Token list \<times> ObfuscateResult \<times> rand" where
  "apply_modifiers profile enabled [] tokens result g = (tokens, result, g)"
| "apply_modifiers profile enabled (m # mods) tokens result g =
     (if \<not> enabled_at enabled (Name m)
      then apply_modifiers profile enabled mods tokens result g
      else (case Modifiers (Parameters profile) (Name m) of
              None \<Rightarrow> apply_modifiers profile enabled mods tokens result g
            | Some rawCfg \<Rightarrow>
               (case Apply m tokens rawCfg g of
                  ((modified, Some err), g1) \<Rightarrow>
                    if errors_Is err ErrNotImplemented
                    then apply_modifiers profile enabled mods tokens
                           (result\<lparr>Skipped := Skipped result @ [Name m]\<rparr>) g1
                    else apply_modifiers profile enabled mods tokens
                           (result\<lparr>Errors := (Errors result)(Name m \<mapsto> err)\<rparr>) g1
                | ((modified, None), g1) \<Rightarrow>
                    apply_modifiers profile enabled mods modified
                      (result\<lparr>Applied := Applied result @ [Name m]\<rparr>) g1)))"

text \<open>
  Obfuscate; the registry, a package-level variable in the source, is the second argument,
  and a nil profile file is None.
\<close>

definition Obfuscate ::
  "Modifier list \<Rightarrow> gostring \<Rightarrow> ProfileFile option \<Rightarrow> (string \<rightharpoonup> bool) \<Rightarrow> rand \<Rightarrow>
   (ObfuscateResult \<times> error option) \<times> rand" where
  "Obfuscate registry command pf enabled g =
     (case pf of
        None \<Rightarrow> ((zero_ObfuscateResult, Some (errorString ''engine: no profiles available'')), g)
      | Some pf' \<Rightarrow>
         if length (Profiles pf') = 0
         then ((zero_ObfuscateResult, Some (errorString ''engine: no profiles available'')), g)
         else (let profile = pickProfile pf' in
               case Tokenize command profile of
                 Inl err \<Rightarrow>
                   ((zero_ObfuscateResult, Some (wrapError ''engine: tokenize: %w'' err)), g)
               | Inr tokens \<Rightarrow>
                   (let (tokens1, result, g1) =
                          apply_modifiers profile enabled registry tokens zero_ObfuscateResult g
                    in ((result\<lparr>Output := Render tokens1\<rparr>, None), g1))))"

section \<open>Inputs of the examples\<close>

definition config_one :: RawMessage where
  "config_one = ''{\"AppliesTo\":[\"argument\"],\"Probability\":\"1.0\"}''"

definition config_zero :: RawMessage where
  "config_zero = ''{\"AppliesTo\":[\"argument\",\"value\"],\"Probability\":\"0.0\"}''"

definition config_insert :: RawMessage where
  "config_insert =
     ''{\"AppliesTo\":[\"argument\",\"value\"],\"Probability\":\"0.0\",\"Characters\":[],\"Offset\":\"2\"}''"

definition config_invalid :: RawMessage where
  "config_invalid = ''not valid json''"

text \<open>
  An excerpt of the standard library, used only at the inputs of the examples, where it
  returns what Go returns: the three configurations above decode into either struct (a field
  that the struct lacks is ignored, a field that the document lacks stays zero), the literals
  0.0 and 1.0 are read as floats and the literal 2 as an integer. Any other input is reported
  as an error. Above MaxASCII it holds the entries of the Unicode tables for three runes:
  U+00DF, a lower-case letter with no upper case of one rune; U+0345, a combining mark whose
  upper case is U+0399; and U+24D0, a symbol whose upper case is U+24B6. Every other rune
  above MaxASCII is left without case.
\<close>

definition example_lib :: stdlib where
  "example_lib =
     \<lparr>json_Unmarshal_Base = (\<lambda>raw.
        if raw = config_one then Inr \<lparr>AppliesTo = [''argument''], Probability = ''1.0''\<rparr>
        else if raw = config_zero \<or> raw = config_insert
        then Inr \<lparr>AppliesTo = [''argument'', ''value''], Probability = ''0.0''\<rparr>
        else Inl (LibError ''json: invalid input'')),
      json_Unmarshal_CharInsert = (\<lambda>raw.
        if raw = config_one
        then Inr \<lparr>AppliesTo = [''argument''], Probability = ''1.0'',
                  Characters = [], Offset = []\<rparr>
        else if raw = config_zero
        then Inr \<lparr>AppliesTo = [''argument'', ''value''], Probability = ''0.0'',
                  Characters = [], Offset = []\<rparr>
        else if raw = config_insert
        then Inr \<lparr>AppliesTo = [''argument'', ''value''], Probability = ''0.0'',
                  Characters = [], Offset = ''2''\<rparr>
        else Inl (LibError ''json: invalid input'')),
      strconv_ParseFloat = (\<lambda>s.
        if s = ''0.0'' then Inr (Fin 0) else if s = ''1.0'' then Inr (Fin 1)
        else Inl (LibError ''strconv.ParseFloat: invalid syntax'')),
      strconv_Atoi = (\<lambda>s.
        if s = ''2'' then Inr 2 else Inl (LibError ''strconv.Atoi: invalid syntax'')),
      table_IsUpper = (\<lambda>r. False),
      table_ToUpper = (\<lambda>r. if r = 837 then 921 else if r = 9424 then 9398 else r),
      table_ToLower = (\<lambda>r. r),
      table_IsLetter = (\<lambda>r. r = 223)\<rparr>"

definition example_rand :: rand where
  "example_rand = (\<lambda>n. 1 / 2)"

text \<open>A profile that declares the flag -f with one value and configures two modifiers.\<close>

definition example_profile :: Profile where
  "example_profile =
     \<lparr>Platform = ''windows'',
      Parameters =
        \<lparr>Arguments = [\<lparr>Flags = [text_of ''-f''], ValueCount = 1\<rparr>],
         Modifiers = [''CharacterInsertion'' \<mapsto> config_insert, ''RandomCase'' \<mapsto> config_one]\<rparr>\<rparr>"

definition example_enabled :: "string \<rightharpoonup> bool" where
  "example_enabled = [''CharacterInsertion'' \<mapsto> True, ''RandomCase'' \<mapsto> True]"

definition example_tokens :: "Token list" where
  "example_tokens =
     [\<lparr>Type = TokenTypeCommand, Value = text_of ''a.exe''\<rparr>,
      \<lparr>Type = TokenTypeArgument, Value = text_of ''-urlcache''\<rparr>]"

definition scenario_A :: gostring where
  "scenario_A = text_of ''certutil.exe -urlcache -f https://example.com output.bin''"

definition linux_profile :: Profile where
  "linux_profile =
     \<lparr>Platform = ''linux'', Parameters = \<lparr>Arguments = [], Modifiers = Map.empty\<rparr>\<rparr>"

text \<open>Two variants; the one for Linux comes first and configures no modifier.\<close>

definition example_file :: ProfileFile where
  "example_file = \<lparr>Profiles = [linux_profile, example_profile]\<rparr>"

text \<open>A command, balanced in its quotes, whose quoted field holds two spaces.\<close>

definition quoted_command :: gostring where
  "quoted_command = text_of ''cmd.exe /c \"a  b\"''"

text \<open>
  A profile and a set of enabled modifiers under which the three outcomes of Apply occur:
  the configuration of CharacterInsertion does not decode, RandomCase succeeds, and Regex is
  a stub.
\<close>

definition faults_profile :: Profile where
  "faults_profile =
     \<lparr>Platform = ''windows'',
      Parameters =
        \<lparr>Arguments = [],
         Modifiers = [''CharacterInsertion'' \<mapsto> config_invalid, ''RandomCase'' \<mapsto> config_one,
                      ''Regex'' \<mapsto> config_one]\<rparr>\<rparr>"

definition faults_enabled :: "string \<rightharpoonup> bool" where
  "faults_enabled =
     [''CharacterInsertion'' \<mapsto> True, ''RandomCase'' \<mapsto> True, ''Regex'' \<mapsto> True]"

definition short_command :: gostring where
  "short_command = text_of ''a.exe -urlcache''"

definition flipped_tokens :: "Token list" where
  "flipped_tokens =
     [\<lparr>Type = TokenTypeCommand, Value = text_of ''a.exe''\<rparr>,
      \<lparr>Type = TokenTypeArgument, Value = text_of ''-URLCACHE''\<rparr>]"

definition invalid_config_error :: error where
  "invalid_config_error =
     wrapError ''unmarshal config: %w'' (External (LibError ''json: invalid input''))"

section \<open>RandomCase over an explicit store\<close>

text \<open>
  To speak about the caller's slice after the call, the token slices live in a store of
  backing arrays. An address is an index into the store, and a slice is a window of one
  array. make allocates a new array at the end of the store, copy writes into the array of
  its destination, and an assignment to a field of out[idx] updates one cell.
\<close>

type_synonym addr = nat
type_synonym store = "Token list list"

record slice =
  base :: addr
  off :: nat
  len :: nat

definition slice_ok :: "store \<Rightarrow> slice \<Rightarrow> bool" where
  "slice_ok h s \<longleftrightarrow> base s < length h \<and> off s + len s \<le> length (h ! base s)"

definition contents :: "store \<Rightarrow> slice \<Rightarrow> Token list" where
  "contents h s = take (len s) (drop (off s) (h ! base s))"

definition slice_get :: "store \<Rightarrow> slice \<Rightarrow> nat \<Rightarrow> Token" where
  "slice_get h s i = h ! base s ! (off s + i)"

definition slice_set_Value :: "store \<Rightarrow> slice \<Rightarrow> nat \<Rightarrow> gostring \<Rightarrow> store" where
  "slice_set_Value h s i v =
     h[base s := (h ! base s)[off s + i := (h ! base s ! (off s + i))\<lparr>Value := v\<rparr>]]"

definition make_tokens :: "store \<Rightarrow> nat \<Rightarrow> slice \<times> store" where
  "make_tokens h n =
     (\<lparr>base = length h, off = 0, len = n\<rparr>, h @ [replicate n \<lparr>Type = [], Value = []\<rparr>])"

definition copy_tokens :: "store \<Rightarrow> slice \<Rightarrow> slice \<Rightarrow> store" where
  "copy_tokens h dst src =
     (let n = min (len dst) (len src); xs = take n (contents h src); a = h ! base dst
      in h[base dst := take (off dst) a @ xs @ drop (off dst + n) a])"

text \<open>The loop of lines 122 to 137; the indices still to visit are the sixth argument.\<close>

fun RandomCase_loop_store ::
  "stdlib \<Rightarrow> BaseModifierConfig \<Rightarrow> float64 \<Rightarrow> slice \<Rightarrow> slice \<Rightarrow> nat list \<Rightarrow> store \<Rightarrow> rand \<Rightarrow>
   store \<times> rand" where
  "RandomCase_loop_store L cfgM probability tokens out [] h g = (h, g)"
| "RandomCase_loop_store L cfgM probability tokens out (idx # idxs) h g =
     (if Type (slice_get h tokens idx) \<notin> set (AppliesTo cfgM)
      then RandomCase_loop_store L cfgM probability tokens out idxs h g
      else (let (runes, g1) =
                  flip_runes L probability (runes_of (Value (slice_get h tokens idx))) g
            in RandomCase_loop_store L cfgM probability tokens out idxs
                 (slice_set_Value h out idx (string_of runes)) g1))"

definition RandomCase_Apply_store ::
  "stdlib \<Rightarrow> store \<Rightarrow> slice \<Rightarrow> RawMessage \<Rightarrow> rand \<Rightarrow> ((slice \<times> error option) \<times> store) \<times> rand" where
  "RandomCase_Apply_store L h tokens cfg g =
     (let (out, h1) = make_tokens h (len tokens);
          h2 = copy_tokens h1 out tokens
      in case json_Unmarshal_Base L cfg of
           Inl err \<Rightarrow> (((tokens, Some (wrapError ''unmarshal config: %w'' (External err))), h2), g)
         | Inr cfgM \<Rightarrow>
            (case strconv_ParseFloat L (Probability cfgM) of
               Inl err \<Rightarrow>
                 (((tokens, Some (wrapError ''parse probability: %w'' (External err))), h2), g)
             | Inr probability \<Rightarrow>
                if f64_less probability (Fin 0) \<or> f64_less (Fin 1) probability
                then (((tokens, Some (errorString ''probability must be between 0 and 1'')), h2), g)
                else (let (h3, g1) = RandomCase_loop_store L cfgM probability tokens out
                                       [0..<len tokens] h2 g
                      in (((out, None), h3), g1))))"

text \<open>
  The other nine modifiers return the slice they were given and touch no array; the error of
  CharacterInsertion is the one computed above.
\<close>

type_synonym Apply_store =
  "store \<Rightarrow> slice \<Rightarrow> RawMessage \<Rightarrow> rand \<Rightarrow> ((slice \<times> error option) \<times> store) \<times> rand"

definition stub_Apply_store :: Apply_store where
  "stub_Apply_store h tokens cfg g = (((tokens, Some ErrNotImplemented), h), g)"

definition CharacterInsertion_Apply_store :: "stdlib \<Rightarrow> Apply_store" where
  "CharacterInsertion_Apply_store L h tokens cfg g =
     (((tokens, snd (fst (CharacterInsertion_Apply L (contents h tokens) cfg g))), h), g)"

definition modifiers_All_store :: "stdlib \<Rightarrow> (string \<times> Apply_store) list" where
  "modifiers_All_store L =
     [(''CharacterInsertion'', CharacterInsertion_Apply_store L),
      (''FilePathTransformer'', stub_Apply_store),
      (''OptionCharSubstitution'', stub_Apply_store),
      (''QuoteInsertion'', stub_Apply_store),
      (''RandomCase'', RandomCase_Apply_store L),
      (''Regex'', stub_Apply_store),
      (''ReorderArgs'', stub_Apply_store),
      (''Sed'', stub_Apply_store),
      (''Shorthands'', stub_Apply_store),
      (''UrlTransformer'', stub_Apply_store)]"

text \<open>A store with one array, which holds the example tokens.\<close>

definition example_store :: store where
  "example_store = [example_tokens]"

section \<open>Tokenize and Render: properties\<close>

lemma fields_from_Nil:
  "fields_from cur s = [] \<longleftrightarrow> cur = [] \<and> (\<forall>r\<in>set s. unicode_IsSpace (rune_of r))"
  by (induction s arbitrary: cur) auto

lemma dropWhile_all: "(\<forall>x\<in>set (dropWhile P s). P x) \<longleftrightarrow> (\<forall>x\<in>set s. P x)"
proof
  assume a: "\<forall>x\<in>set (dropWhile P s). P x"
  have "dropWhile P s = []"
  proof (rule ccontr)
    assume "dropWhile P s \<noteq> []"
    then have "\<not> P (hd (dropWhile P s))" and "hd (dropWhile P s) \<in> set (dropWhile P s)"
      by (auto simp: hd_dropWhile)
    with a show False by blast
  qed
  then show "\<forall>x\<in>set s. P x" by (simp add: dropWhile_eq_Nil_conv)
next
  assume "\<forall>x\<in>set s. P x"
  then show "\<forall>x\<in>set (dropWhile P s). P x" by (auto dest: set_dropWhileD)
qed

lemma strings_TrimSpace_Nil:
  "strings_TrimSpace s = [] \<longleftrightarrow> (\<forall>r\<in>set s. unicode_IsSpace (rune_of r))"
  unfolding strings_TrimSpace_def by (simp add: dropWhile_eq_Nil_conv dropWhile_all)

lemma Tokenize_error:
  "(\<exists>e. Tokenize command profile = Inl e) \<longleftrightarrow> strings_TrimSpace command = []"
  by (auto simp: Tokenize_def Let_def strings_Fields_def fields_from_Nil strings_TrimSpace_Nil)

text \<open>
  Claim C1. The round trip fails on a command, balanced in its quotes, whose quoted field
  holds two spaces. Tokenize splits at white space and gives quotes no meaning, so the
  quoted field is cut into two Argument tokens; Render joins the tokens with single spaces,
  and the command that comes back has one space where the quoted field had two.
\<close>

theorem Render_Tokenize_quoted_field:
  "Tokenize quoted_command example_profile =
     Inr [\<lparr>Type = TokenTypeCommand, Value = text_of ''cmd.exe''\<rparr>,
          \<lparr>Type = TokenTypeArgument, Value = text_of ''/c''\<rparr>,
          \<lparr>Type = TokenTypeArgument, Value = text_of ''\"a''\<rparr>,
          \<lparr>Type = TokenTypeArgument, Value = text_of ''b\"''\<rparr>] \<and>
   Render [\<lparr>Type = TokenTypeCommand, Value = text_of ''cmd.exe''\<rparr>,
           \<lparr>Type = TokenTypeArgument, Value = text_of ''/c''\<rparr>,
           \<lparr>Type = TokenTypeArgument, Value = text_of ''\"a''\<rparr>,
           \<lparr>Type = TokenTypeArgument, Value = text_of ''b\"''\<rparr>] =
     text_of ''cmd.exe /c \"a b\"'' \<and>
   text_of ''cmd.exe /c \"a b\"'' \<noteq> quoted_command"
  by (simp add: quoted_command_def Tokenize_def Render_def strings_Fields_def text_of_def
      unicode_IsSpace_def)

text \<open>
  Claim C2. On the command of scenario A, with a profile that declares -f with one value,
  Tokenize labels the first field a command and every other field an argument: the field
  after -f is an Argument token and not a Value token, and no field is classified by its
  content. The profile is not read.
\<close>

theorem Tokenize_scenario_A:
  "Tokenize scenario_A example_profile =
     Inr [\<lparr>Type = TokenTypeCommand, Value = text_of ''certutil.exe''\<rparr>,
          \<lparr>Type = TokenTypeArgument, Value = text_of ''-urlcache''\<rparr>,
          \<lparr>Type = TokenTypeArgument, Value = text_of ''-f''\<rparr>,
          \<lparr>Type = TokenTypeArgument, Value = text_of ''https://example.com''\<rparr>,
          \<lparr>Type = TokenTypeArgument, Value = text_of ''output.bin''\<rparr>]"
  by (simp add: scenario_A_def Tokenize_def strings_Fields_def text_of_def unicode_IsSpace_def)

section \<open>The loop over the modifiers: properties\<close>

lemma apply_modifiers_append:
  "apply_modifiers profile enabled (pre @ post) tokens result g =
     (case apply_modifiers profile enabled pre tokens result g of
        (tokens1, result1, g1) \<Rightarrow> apply_modifiers profile enabled post tokens1 result1 g1)"
  by (induction pre arbitrary: tokens result g) (auto split: option.splits prod.splits)

lemma dom_if_upd: "dom (\<lambda>a. if a = n then Some e else f a) = insert n (dom f)"
  by (auto split: if_splits)

text \<open>
  What one turn of the loop does, as a case distinction on the modifier at the head.
\<close>

lemma apply_modifiers_step:
  obtains
    (skip) "apply_modifiers profile enabled (m # mods) tokens result g =
              apply_modifiers profile enabled mods tokens result g"
      "\<not> (enabled_at enabled (Name m) \<and> Modifiers (Parameters profile) (Name m) \<noteq> None)"
  | (applied) modified g' where
      "apply_modifiers profile enabled (m # mods) tokens result g =
         apply_modifiers profile enabled mods modified
           (result\<lparr>Applied := Applied result @ [Name m]\<rparr>) g'"
      "\<exists>raw. Apply m tokens raw g = ((modified, None), g')"
  | (skipped) "\<exists>g'. apply_modifiers profile enabled (m # mods) tokens result g =
         apply_modifiers profile enabled mods tokens
           (result\<lparr>Skipped := Skipped result @ [Name m]\<rparr>) g'"
  | (failed) "\<exists>e g'. apply_modifiers profile enabled (m # mods) tokens result g =
         apply_modifiers profile enabled mods tokens
           (result\<lparr>Errors := (Errors result)(Name m \<mapsto> e)\<rparr>) g'"
proof (cases "enabled_at enabled (Name m) \<and> Modifiers (Parameters profile) (Name m) \<noteq> None")
  case False
  then show ?thesis by (intro skip) (auto split: option.splits)
next
  case True
  then obtain raw where raw: "Modifiers (Parameters profile) (Name m) = Some raw" by auto
  obtain modified err g' where ap: "Apply m tokens raw g = ((modified, err), g')"
    by (metis prod.exhaust)
  show ?thesis
  proof (cases err)
    case None
    with True raw ap show ?thesis by (intro applied[of modified g']) auto
  next
    case (Some e)
    show ?thesis
    proof (cases "errors_Is e ErrNotImplemented")
      case True
      with Some \<open>enabled_at enabled (Name m) \<and> _\<close> raw ap show ?thesis
        by (intro skipped) auto
    next
      case False
      with Some True raw ap show ?thesis by (intro failed) auto
    qed
  qed
qed

lemma apply_modifiers_covers:
  "apply_modifiers profile enabled mods tokens result g = (tokens1, result1, g1) \<Longrightarrow>
   (set (Applied result) \<subseteq> set (Applied result1) \<and>
    set (Skipped result) \<subseteq> set (Skipped result1) \<and>
    dom (Errors result) \<subseteq> dom (Errors result1)) \<and>
   (\<forall>m\<in>set mods. enabled_at enabled (Name m) \<longrightarrow>
      Modifiers (Parameters profile) (Name m) \<noteq> None \<longrightarrow>
      Name m \<in> set (Applied result1) \<union> set (Skipped result1) \<union> dom (Errors result1))"
proof (induction mods arbitrary: tokens result g)
  case Nil
  then show ?case by simp
next
  case (Cons m mods)
  show ?case
  proof (cases rule: apply_modifiers_step[of profile enabled m mods tokens result g])
    case skip
    with Cons.prems
    have "apply_modifiers profile enabled mods tokens result g = (tokens1, result1, g1)"
      by simp
    from Cons.IH[OF this] skip(2) show ?thesis by auto
  next
    case (applied modified g')
    with Cons.prems
    have "apply_modifiers profile enabled mods modified
            (result\<lparr>Applied := Applied result @ [Name m]\<rparr>) g' = (tokens1, result1, g1)"
      by simp
    from Cons.IH[OF this] show ?thesis by auto
  next
    case skipped
    with Cons.prems obtain g' where
      "apply_modifiers profile enabled mods tokens
         (result\<lparr>Skipped := Skipped result @ [Name m]\<rparr>) g' = (tokens1, result1, g1)"
      by auto
    from Cons.IH[OF this] show ?thesis by auto
  next
    case failed
    with Cons.prems obtain e g' where
      "apply_modifiers profile enabled mods tokens
         (result\<lparr>Errors := (Errors result)(Name m \<mapsto> e)\<rparr>) g' = (tokens1, result1, g1)"
      by auto
    from Cons.IH[OF this]
    have a: "set (Applied result) \<subseteq> set (Applied result1)"
         "set (Skipped result) \<subseteq> set (Skipped result1)"
      and d: "insert (Name m) (dom (Errors result)) \<subseteq> dom (Errors result1)"
      and r: "\<forall>m\<in>set mods. enabled_at enabled (Name m) \<longrightarrow>
                Modifiers (Parameters profile) (Name m) \<noteq> None \<longrightarrow>
                Name m \<in> set (Applied result1) \<union> set (Skipped result1) \<union> dom (Errors result1)"
      by (simp_all add: dom_if_upd)
    from a d r show ?thesis by auto
  qed
qed

lemma apply_modifiers_not_applied:
  "apply_modifiers profile enabled mods tokens result g = (tokens1, result1, g1) \<Longrightarrow>
   n \<notin> set (Applied result) \<Longrightarrow>
   (\<forall>m\<in>set mods. Name m = n \<longrightarrow> (\<forall>t c g'. snd (fst (Apply m t c g')) \<noteq> None)) \<Longrightarrow>
   n \<notin> set (Applied result1)"
proof (induction mods arbitrary: tokens result g)
  case Nil
  then show ?case by simp
next
  case (Cons m mods)
  have rest: "\<forall>m\<in>set mods. Name m = n \<longrightarrow> (\<forall>t c g'. snd (fst (Apply m t c g')) \<noteq> None)"
    using Cons.prems(3) by simp
  show ?case
  proof (cases rule: apply_modifiers_step[of profile enabled m mods tokens result g])
    case skip
    with Cons.prems(1)
    have "apply_modifiers profile enabled mods tokens result g = (tokens1, result1, g1)"
      by simp
    from Cons.IH[OF this Cons.prems(2) rest] show ?thesis .
  next
    case (applied modified g')
    from applied(2) obtain raw where "Apply m tokens raw g = ((modified, None), g')"
      by blast
    then have none: "snd (fst (Apply m tokens raw g)) = None" by simp
    have nm: "Name m \<noteq> n"
    proof
      assume "Name m = n"
      with Cons.prems(3) have "snd (fst (Apply m tokens raw g)) \<noteq> None" by simp
      with none show False by simp
    qed
    from applied Cons.prems(1)
    have "apply_modifiers profile enabled mods modified
            (result\<lparr>Applied := Applied result @ [Name m]\<rparr>) g' = (tokens1, result1, g1)"
      by simp
    from Cons.IH[OF this _ rest] nm Cons.prems(2) show ?thesis by simp
  next
    case skipped
    with Cons.prems(1) obtain g' where
      "apply_modifiers profile enabled mods tokens
         (result\<lparr>Skipped := Skipped result @ [Name m]\<rparr>) g' = (tokens1, result1, g1)"
      by auto
    from Cons.IH[OF this _ rest] Cons.prems(2) show ?thesis by simp
  next
    case failed
    with Cons.prems(1) obtain e g' where
      "apply_modifiers profile enabled mods tokens
         (result\<lparr>Errors := (Errors result)(Name m \<mapsto> e)\<rparr>) g' = (tokens1, result1, g1)"
      by auto
    from Cons.IH[OF this _ rest] Cons.prems(2) show ?thesis by simp
  qed
qed


lemma apply_modifiers_none_enabled:
  "\<forall>m\<in>set mods. \<not> enabled_at enabled (Name m) \<Longrightarrow>
   apply_modifiers profile enabled mods tokens result g = (tokens, result, g)"
  by (induction mods) auto

lemma apply_modifiers_last:
  assumes "apply_modifiers profile enabled pre tokens0 result0 g0 = (tokens, result, g)"
    and "enabled_at enabled (Name m)"
    and "Modifiers (Parameters profile) (Name m) = Some rawCfg"
    and "Apply m tokens rawCfg g = ((modified, err), g1)"
  shows "apply_modifiers profile enabled (pre @ [m]) tokens0 result0 g0 =
     (case err of
        None \<Rightarrow> (modified, result\<lparr>Applied := Applied result @ [Name m]\<rparr>, g1)
      | Some e \<Rightarrow>
          (tokens,
           if errors_Is e ErrNotImplemented
           then result\<lparr>Skipped := Skipped result @ [Name m]\<rparr>
           else result\<lparr>Errors := (Errors result)(Name m \<mapsto> e)\<rparr>,
           g1))"
  using assms by (simp add: apply_modifiers_append split: option.splits)

lemma apply_modifiers_frame:
  "apply_modifiers profile enabled mods tokens result g = (tokens1, result1, g1) \<Longrightarrow>
   (\<exists>xs. Applied result1 = Applied result @ xs \<and> set xs \<subseteq> Name ` set mods) \<and>
   (\<exists>ys. Skipped result1 = Skipped result @ ys \<and> set ys \<subseteq> Name ` set mods) \<and>
   (\<forall>n. n \<notin> Name ` set mods \<longrightarrow> Errors result1 n = Errors result n) \<and>
   Output result1 = Output result"
proof (induction mods arbitrary: tokens result g)
  case Nil
  then show ?case by simp
next
  case (Cons m mods)
  show ?case
  proof (cases rule: apply_modifiers_step[of profile enabled m mods tokens result g])
    case skip
    with Cons.prems
    have "apply_modifiers profile enabled mods tokens result g = (tokens1, result1, g1)"
      by simp
    from Cons.IH[OF this]
    obtain xs ys where
      a: "Applied result1 = Applied result @ xs" "set xs \<subseteq> Name ` set mods"
      and s: "Skipped result1 = Skipped result @ ys" "set ys \<subseteq> Name ` set mods"
      and e: "\<forall>n. n \<notin> Name ` set mods \<longrightarrow> Errors result1 n = Errors result n"
      and out: "Output result1 = Output result"
      by auto
    have A: "\<exists>xs. Applied result1 = Applied result @ xs \<and> set xs \<subseteq> Name ` set (m # mods)"
      using a by (intro exI[of _ xs]) auto
    have S: "\<exists>ys. Skipped result1 = Skipped result @ ys \<and> set ys \<subseteq> Name ` set (m # mods)"
      using s by (intro exI[of _ ys]) auto
    have E: "\<forall>n. n \<notin> Name ` set (m # mods) \<longrightarrow> Errors result1 n = Errors result n"
      using e by auto
    from A S E out show ?thesis by (intro conjI)
  next
    case (applied modified g')
    with Cons.prems
    have "apply_modifiers profile enabled mods modified
            (result\<lparr>Applied := Applied result @ [Name m]\<rparr>) g' = (tokens1, result1, g1)"
      by simp
    from Cons.IH[OF this]
    obtain xs ys where
      a: "Applied result1 = (Applied result @ [Name m]) @ xs" "set xs \<subseteq> Name ` set mods"
      and s: "Skipped result1 = Skipped result @ ys" "set ys \<subseteq> Name ` set mods"
      and e: "\<forall>n. n \<notin> Name ` set mods \<longrightarrow> Errors result1 n = Errors result n"
      and out: "Output result1 = Output result"
      by auto
    have A: "\<exists>xs. Applied result1 = Applied result @ xs \<and> set xs \<subseteq> Name ` set (m # mods)"
      using a by (intro exI[of _ "Name m # xs"]) auto
    have S: "\<exists>ys. Skipped result1 = Skipped result @ ys \<and> set ys \<subseteq> Name ` set (m # mods)"
      using s by (intro exI[of _ ys]) auto
    have E: "\<forall>n. n \<notin> Name ` set (m # mods) \<longrightarrow> Errors result1 n = Errors result n"
      using e by auto
    from A S E out show ?thesis by (intro conjI)
  next
    case skipped
    with Cons.prems obtain g' where
      "apply_modifiers profile enabled mods tokens
         (result\<lparr>Skipped := Skipped result @ [Name m]\<rparr>) g' = (tokens1, result1, g1)"
      by auto
    from Cons.IH[OF this]
    obtain xs ys where
      a: "Applied result1 = Applied result @ xs" "set xs \<subseteq> Name ` set mods"
      and s: "Skipped result1 = (Skipped result @ [Name m]) @ ys" "set ys \<subseteq> Name ` set mods"
      and e: "\<forall>n. n \<notin> Name ` set mods \<longrightarrow> Errors result1 n = Errors result n"
      and out: "Output result1 = Output result"
      by auto
    have A: "\<exists>xs. Applied result1 = Applied result @ xs \<and> set xs \<subseteq> Name ` set (m # mods)"
      using a by (intro exI[of _ xs]) auto
    have S: "\<exists>ys. Skipped result1 = Skipped result @ ys \<and> set ys \<subseteq> Name ` set (m # mods)"
      using s by (intro exI[of _ "Name m # ys"]) auto
    have E: "\<forall>n. n \<notin> Name ` set (m # mods) \<longrightarrow> Errors result1 n = Errors result n"
      using e by auto
    from A S E out show ?thesis by (intro conjI)
  next
    case failed
    with Cons.prems obtain e g' where
      "apply_modifiers profile enabled mods tokens
         (result\<lparr>Errors := (Errors result)(Name m \<mapsto> e)\<rparr>) g' = (tokens1, result1, g1)"
      by auto
    from Cons.IH[OF this]
    obtain xs ys where
      a: "Applied result1 = Applied result @ xs" "set xs \<subseteq> Name ` set mods"
      and s: "Skipped result1 = Skipped result @ ys" "set ys \<subseteq> Name ` set mods"
      and e: "\<forall>n. n \<notin> Name ` set mods \<longrightarrow> Errors result1 n = ((Errors result)(Name m \<mapsto> e)) n"
      and out: "Output result1 = Output result"
      by auto
    have A: "\<exists>xs. Applied result1 = Applied result @ xs \<and> set xs \<subseteq> Name ` set (m # mods)"
      using a by (intro exI[of _ xs]) auto
    have S: "\<exists>ys. Skipped result1 = Skipped result @ ys \<and> set ys \<subseteq> Name ` set (m # mods)"
      using s by (intro exI[of _ ys]) auto
    have E: "\<forall>n. n \<notin> Name ` set (m # mods) \<longrightarrow> Errors result1 n = Errors result n"
      using e by auto
    from A S E out show ?thesis by (intro conjI)
  qed
qed

text \<open>
  Where the name of a modifier stands in the final report, when no other registered modifier
  has its name.
\<close>

lemma apply_modifiers_report:
  assumes d: "distinct (map Name (pre @ m # post))"
    and reach: "apply_modifiers profile enabled pre tokens0 zero_ObfuscateResult g0 =
                  (tokens, result, g)"
    and en: "enabled_at enabled (Name m)"
    and cf: "Modifiers (Parameters profile) (Name m) = Some rawCfg"
    and ap: "Apply m tokens rawCfg g = ((modified, err), g1)"
    and fin: "apply_modifiers profile enabled (pre @ m # post) tokens0 zero_ObfuscateResult g0 =
                (tokens2, result2, g2)"
  shows "case err of
           None \<Rightarrow> Name m \<in> set (Applied result2) \<and> Name m \<notin> set (Skipped result2) \<and>
                   Name m \<notin> dom (Errors result2)
         | Some e \<Rightarrow>
             Name m \<notin> set (Applied result2) \<and>
             (if errors_Is e ErrNotImplemented
              then Name m \<in> set (Skipped result2) \<and> Name m \<notin> dom (Errors result2)
              else Errors result2 (Name m) = Some e \<and> Name m \<notin> set (Skipped result2))"
proof -
  from d have npre: "Name m \<notin> Name ` set pre" and npost: "Name m \<notin> Name ` set post"
    by auto
  from apply_modifiers_frame[OF reach] npre
  have r: "Name m \<notin> set (Applied result)" "Name m \<notin> set (Skipped result)"
    "Errors result (Name m) = None"
    by (auto simp: zero_ObfuscateResult_def)
  define T where "T = (case err of None \<Rightarrow> modified | Some e \<Rightarrow> tokens)"
  define R where "R = (case err of
          None \<Rightarrow> result\<lparr>Applied := Applied result @ [Name m]\<rparr>
        | Some e \<Rightarrow>
            if errors_Is e ErrNotImplemented
            then result\<lparr>Skipped := Skipped result @ [Name m]\<rparr>
            else result\<lparr>Errors := (Errors result)(Name m \<mapsto> e)\<rparr>)"
  have "apply_modifiers profile enabled (pre @ m # post) tokens0 zero_ObfuscateResult g0 =
        apply_modifiers profile enabled post T R g1"
    using reach en cf ap by (simp add: apply_modifiers_append T_def R_def split: option.splits)
  with fin have "apply_modifiers profile enabled post T R g1 = (tokens2, result2, g2)" by simp
  from apply_modifiers_frame[OF this] npost
  obtain xs ys where
    a: "Applied result2 = Applied R @ xs" "Name m \<notin> set xs"
    and s: "Skipped result2 = Skipped R @ ys" "Name m \<notin> set ys"
    and e: "Errors result2 (Name m) = Errors R (Name m)"
    by blast
  show ?thesis
  proof (cases err)
    case None
    then have "Applied R = Applied result @ [Name m]" "Skipped R = Skipped result"
      "Errors R = Errors result" by (simp_all add: R_def)
    with None a s e r show ?thesis by (auto simp: domIff)
  next
    case (Some x)
    show ?thesis
    proof (cases "errors_Is x ErrNotImplemented")
      case True
      with Some have "Applied R = Applied result" "Skipped R = Skipped result @ [Name m]"
        "Errors R = Errors result" by (simp_all add: R_def)
      with Some True a s e r show ?thesis by (auto simp: domIff)
    next
      case False
      with Some have "Applied R = Applied result" "Skipped R = Skipped result"
        "Errors R (Name m) = Some x" by (simp_all add: R_def)
      with Some False a s e r show ?thesis by auto
    qed
  qed
qed

lemma Obfuscate_run:
  assumes "Profiles pf \<noteq> []" and "Tokenize command (pickProfile pf) = Inr tokens0"
  shows "Obfuscate registry command (Some pf) enabled g0 =
     (case apply_modifiers (pickProfile pf) enabled registry tokens0 zero_ObfuscateResult g0 of
        (tokens2, result2, g2) \<Rightarrow> ((result2\<lparr>Output := Render tokens2\<rparr>, None), g2))"
  using assms by (simp add: Obfuscate_def)

text \<open>The run of the example with faults, modifier by modifier.\<close>

lemma Tokenize_short_command: "Tokenize short_command faults_profile = Inr example_tokens"
  by (simp add: short_command_def Tokenize_def strings_Fields_def text_of_def
      unicode_IsSpace_def example_tokens_def)

lemma distinct_registry: "distinct (map Name (modifiers_All L))"
  by (simp add: modifiers_All_def CharacterInsertion_def RandomCase_def
      FilePathTransformer_def OptionCharSubstitution_def QuoteInsertion_def Regex_def
      ReorderArgs_def Sed_def Shorthands_def UrlTransformer_def)

lemma faults_CharacterInsertion:
  "Apply (CharacterInsertion example_lib) example_tokens config_invalid example_rand =
     ((example_tokens, Some invalid_config_error), example_rand)"
  by (simp add: CharacterInsertion_def CharacterInsertion_Apply_def example_lib_def
      config_invalid_def config_one_def config_zero_def config_insert_def
      invalid_config_error_def)

lemma faults_RandomCase:
  "Apply (RandomCase example_lib) example_tokens config_one example_rand =
     ((flipped_tokens, None), example_rand)"
  by (simp add: RandomCase_def RandomCase_Apply_def example_lib_def config_one_def
      example_rand_def rand_Float64_def example_tokens_def flipped_tokens_def
      TokenTypeCommand_def TokenTypeArgument_def text_of_def runes_of_def string_of_def
      valid_rune_def flip_case_def unicode_IsUpper_def unicode_ToUpper_def
      unicode_ToLower_def MaxASCII_def split_beta)

lemma faults_Regex:
  "Apply Regex flipped_tokens config_one example_rand =
     ((flipped_tokens, Some ErrNotImplemented), example_rand)"
  by (simp add: Regex_def stub_Apply_def)

lemma faults_names:
  "enabled_at faults_enabled ''CharacterInsertion''" "enabled_at faults_enabled ''RandomCase''"
  "enabled_at faults_enabled ''Regex''"
  "\<not> enabled_at faults_enabled ''FilePathTransformer''"
  "\<not> enabled_at faults_enabled ''OptionCharSubstitution''"
  "\<not> enabled_at faults_enabled ''QuoteInsertion''"
  "\<not> enabled_at faults_enabled ''ReorderArgs''" "\<not> enabled_at faults_enabled ''Sed''"
  "\<not> enabled_at faults_enabled ''Shorthands''" "\<not> enabled_at faults_enabled ''UrlTransformer''"
  "Modifiers (Parameters faults_profile) ''CharacterInsertion'' = Some config_invalid"
  "Modifiers (Parameters faults_profile) ''RandomCase'' = Some config_one"
  "Modifiers (Parameters faults_profile) ''Regex'' = Some config_one"
  by (simp_all add: enabled_at_def faults_enabled_def faults_profile_def)

lemma faults_reach_RandomCase:
  "apply_modifiers faults_profile faults_enabled
     [CharacterInsertion example_lib, FilePathTransformer, OptionCharSubstitution, QuoteInsertion]
     example_tokens zero_ObfuscateResult example_rand =
     (example_tokens,
      zero_ObfuscateResult\<lparr>Errors := [''CharacterInsertion'' \<mapsto> invalid_config_error]\<rparr>,
      example_rand)"
  using faults_CharacterInsertion
  by (simp add: faults_names CharacterInsertion_def FilePathTransformer_def
      OptionCharSubstitution_def QuoteInsertion_def invalid_config_error_def
      zero_ObfuscateResult_def)

lemma faults_reach_Regex:
  "apply_modifiers faults_profile faults_enabled
     [CharacterInsertion example_lib, FilePathTransformer, OptionCharSubstitution, QuoteInsertion,
      RandomCase example_lib]
     example_tokens zero_ObfuscateResult example_rand =
     (flipped_tokens,
      zero_ObfuscateResult\<lparr>Errors := [''CharacterInsertion'' \<mapsto> invalid_config_error],
                            Applied := [''RandomCase'']\<rparr>,
      example_rand)"
  using apply_modifiers_last[OF faults_reach_RandomCase, of "RandomCase example_lib" config_one
      flipped_tokens None example_rand] faults_RandomCase
  by (simp add: faults_names RandomCase_def zero_ObfuscateResult_def)

lemma faults_file: "Profiles \<lparr>Profiles = [faults_profile]\<rparr> \<noteq> []"
  "pickProfile \<lparr>Profiles = [faults_profile]\<rparr> = faults_profile"
  by (simp_all add: pickProfile_def)

lemma Render_flipped_tokens: "Render flipped_tokens = text_of ''a.exe -URLCACHE''"
  by (simp add: Render_def flipped_tokens_def text_of_def)

text \<open>
  Claim C3. Let the names of the registered modifiers be distinct, and let the loop of
  Obfuscate, after the modifiers pre, reach an enabled, configured modifier m with the
  working sequence tokens and the report result. After m the working sequence is tokens
  itself when Apply returns an error, and the output of Apply when it returns none; the name
  of m has been appended to Skipped when the error is ErrNotImplemented, stored in Errors
  with the error when it is any other error, and appended to Applied when there is none.
  Obfuscate then runs the loop over every modifier after m from this state and returns no
  error. In what Obfuscate returns, the name of m stands under Skipped, in Errors with its
  error, or under Applied accordingly; and when no modifier after m is enabled, the output
  renders the working sequence just described, so after an error of m it renders tokens.
\<close>

theorem Obfuscate_modifier_fault_containment:
  assumes "Profiles pf \<noteq> []"
    and "Tokenize command (pickProfile pf) = Inr tokens0"
    and "distinct (map Name (pre @ m # post))"
    and "apply_modifiers (pickProfile pf) enabled pre tokens0 zero_ObfuscateResult g0 =
           (tokens, result, g)"
    and "enabled_at enabled (Name m)"
    and "Modifiers (Parameters (pickProfile pf)) (Name m) = Some rawCfg"
    and "Apply m tokens rawCfg g = ((modified, err), g1)"
  shows
    "apply_modifiers (pickProfile pf) enabled (pre @ [m]) tokens0 zero_ObfuscateResult g0 =
       (case err of
          None \<Rightarrow> (modified, result\<lparr>Applied := Applied result @ [Name m]\<rparr>, g1)
        | Some e \<Rightarrow>
            (tokens,
             if errors_Is e ErrNotImplemented
             then result\<lparr>Skipped := Skipped result @ [Name m]\<rparr>
             else result\<lparr>Errors := (Errors result)(Name m \<mapsto> e)\<rparr>,
             g1)) \<and>
     Obfuscate (pre @ m # post) command (Some pf) enabled g0 =
       (case apply_modifiers (pickProfile pf) enabled post
               (case err of None \<Rightarrow> modified | Some e \<Rightarrow> tokens)
               (case err of
                  None \<Rightarrow> result\<lparr>Applied := Applied result @ [Name m]\<rparr>
                | Some e \<Rightarrow>
                    if errors_Is e ErrNotImplemented
                    then result\<lparr>Skipped := Skipped result @ [Name m]\<rparr>
                    else result\<lparr>Errors := (Errors result)(Name m \<mapsto> e)\<rparr>)
               g1 of
          (tokens2, result2, g2) \<Rightarrow> ((result2\<lparr>Output := Render tokens2\<rparr>, None), g2)) \<and>
     (case err of
        None \<Rightarrow>
          Name m \<in> set (Applied (fst (fst (Obfuscate (pre @ m # post) command (Some pf) enabled g0))))
      | Some e \<Rightarrow>
          if errors_Is e ErrNotImplemented
          then Name m \<in> set (Skipped (fst (fst (Obfuscate (pre @ m # post) command (Some pf) enabled g0))))
          else Errors (fst (fst (Obfuscate (pre @ m # post) command (Some pf) enabled g0))) (Name m) =
                 Some e) \<and>
     ((\<forall>m'\<in>set post. \<not> enabled_at enabled (Name m')) \<longrightarrow>
        Output (fst (fst (Obfuscate (pre @ m # post) command (Some pf) enabled g0))) =
          Render (case err of None \<Rightarrow> modified | Some e \<Rightarrow> tokens))"
proof (intro conjI impI)
  let ?p = "pickProfile pf"
  define T where "T = (case err of None \<Rightarrow> modified | Some e \<Rightarrow> tokens)"
  define R where "R = (case err of
          None \<Rightarrow> result\<lparr>Applied := Applied result @ [Name m]\<rparr>
        | Some e \<Rightarrow>
            if errors_Is e ErrNotImplemented
            then result\<lparr>Skipped := Skipped result @ [Name m]\<rparr>
            else result\<lparr>Errors := (Errors result)(Name m \<mapsto> e)\<rparr>)"
  show "apply_modifiers ?p enabled (pre @ [m]) tokens0 zero_ObfuscateResult g0 =
       (case err of
          None \<Rightarrow> (modified, result\<lparr>Applied := Applied result @ [Name m]\<rparr>, g1)
        | Some e \<Rightarrow>
            (tokens,
             if errors_Is e ErrNotImplemented
             then result\<lparr>Skipped := Skipped result @ [Name m]\<rparr>
             else result\<lparr>Errors := (Errors result)(Name m \<mapsto> e)\<rparr>,
             g1))"
    using assms(4-7) by (rule apply_modifiers_last)
  have run: "apply_modifiers ?p enabled (pre @ m # post) tokens0 zero_ObfuscateResult g0 =
             apply_modifiers ?p enabled post T R g1"
    using assms(4-7)
    by (simp add: apply_modifiers_append T_def R_def split: option.splits)
  obtain tokens2 result2 g2 where
    fin: "apply_modifiers ?p enabled (pre @ m # post) tokens0 zero_ObfuscateResult g0 =
            (tokens2, result2, g2)"
    by (metis prod.exhaust)
  have ob: "Obfuscate (pre @ m # post) command (Some pf) enabled g0 =
              ((result2\<lparr>Output := Render tokens2\<rparr>, None), g2)"
    using fin by (simp add: Obfuscate_run[OF assms(1,2)])
  show "Obfuscate (pre @ m # post) command (Some pf) enabled g0 =
       (case apply_modifiers ?p enabled post
               (case err of None \<Rightarrow> modified | Some e \<Rightarrow> tokens)
               (case err of
                  None \<Rightarrow> result\<lparr>Applied := Applied result @ [Name m]\<rparr>
                | Some e \<Rightarrow>
                    if errors_Is e ErrNotImplemented
                    then result\<lparr>Skipped := Skipped result @ [Name m]\<rparr>
                    else result\<lparr>Errors := (Errors result)(Name m \<mapsto> e)\<rparr>)
               g1 of
          (tokens2, result2, g2) \<Rightarrow> ((result2\<lparr>Output := Render tokens2\<rparr>, None), g2))"
    using run by (simp add: Obfuscate_run[OF assms(1,2)] T_def R_def)
  from apply_modifiers_report[OF assms(3-7) fin]
  show "case err of
        None \<Rightarrow>
          Name m \<in> set (Applied (fst (fst (Obfuscate (pre @ m # post) command (Some pf) enabled g0))))
      | Some e \<Rightarrow>
          if errors_Is e ErrNotImplemented
          then Name m \<in> set (Skipped (fst (fst (Obfuscate (pre @ m # post) command (Some pf) enabled g0))))
          else Errors (fst (fst (Obfuscate (pre @ m # post) command (Some pf) enabled g0))) (Name m) =
                 Some e"
    by (auto simp: ob split: option.splits if_splits)
  assume "\<forall>m'\<in>set post. \<not> enabled_at enabled (Name m')"
  then have "apply_modifiers ?p enabled post T R g1 = (T, R, g1)"
    by (rule apply_modifiers_none_enabled)
  with run fin have "tokens2 = T" by simp
  then show "Output (fst (fst (Obfuscate (pre @ m # post) command (Some pf) enabled g0))) =
          Render (case err of None \<Rightarrow> modified | Some e \<Rightarrow> tokens)"
    by (simp add: ob T_def)
qed

theorem Obfuscate_modifier_fault_containment_witness:
  "Tokenize short_command (pickProfile \<lparr>Profiles = [faults_profile]\<rparr>) = Inr example_tokens \<and>
   apply_modifiers faults_profile faults_enabled [CharacterInsertion example_lib]
     example_tokens zero_ObfuscateResult example_rand =
     (example_tokens,
      zero_ObfuscateResult\<lparr>Errors := [''CharacterInsertion'' \<mapsto> invalid_config_error]\<rparr>,
      example_rand) \<and>
   apply_modifiers faults_profile faults_enabled
     [CharacterInsertion example_lib, FilePathTransformer, OptionCharSubstitution,
      QuoteInsertion, RandomCase example_lib]
     example_tokens zero_ObfuscateResult example_rand =
     (flipped_tokens,
      zero_ObfuscateResult\<lparr>Errors := [''CharacterInsertion'' \<mapsto> invalid_config_error],
                            Applied := [''RandomCase'']\<rparr>,
      example_rand) \<and>
   apply_modifiers faults_profile faults_enabled
     [CharacterInsertion example_lib, FilePathTransformer, OptionCharSubstitution,
      QuoteInsertion, RandomCase example_lib, Regex]
     example_tokens zero_ObfuscateResult example_rand =
     (flipped_tokens,
      zero_ObfuscateResult\<lparr>Errors := [''CharacterInsertion'' \<mapsto> invalid_config_error],
                            Applied := [''RandomCase''], Skipped := [''Regex'']\<rparr>,
      example_rand) \<and>
   Errors (fst (fst (Obfuscate (modifiers_All example_lib) short_command
                       (Some \<lparr>Profiles = [faults_profile]\<rparr>) faults_enabled example_rand)))
     ''CharacterInsertion'' = Some invalid_config_error \<and>
   ''RandomCase'' \<in> set (Applied (fst (fst (Obfuscate (modifiers_All example_lib) short_command
                       (Some \<lparr>Profiles = [faults_profile]\<rparr>) faults_enabled example_rand)))) \<and>
   ''Regex'' \<in> set (Skipped (fst (fst (Obfuscate (modifiers_All example_lib) short_command
                       (Some \<lparr>Profiles = [faults_profile]\<rparr>) faults_enabled example_rand)))) \<and>
   Output (fst (fst (Obfuscate (modifiers_All example_lib) short_command
                       (Some \<lparr>Profiles = [faults_profile]\<rparr>) faults_enabled example_rand))) =
     text_of ''a.exe -URLCACHE''"
proof -
  let ?pf = "\<lparr>Profiles = [faults_profile]\<rparr>"
  let ?CI = "CharacterInsertion example_lib"
  let ?RC = "RandomCase example_lib"
  let ?pre2 = "[?CI, FilePathTransformer, OptionCharSubstitution, QuoteInsertion]"
  let ?pre3 = "[?CI, FilePathTransformer, OptionCharSubstitution, QuoteInsertion, ?RC]"
  let ?post1 = "[FilePathTransformer, OptionCharSubstitution, QuoteInsertion, ?RC, Regex,
                 ReorderArgs, Sed, Shorthands, UrlTransformer]"
  let ?post2 = "[Regex, ReorderArgs, Sed, Shorthands, UrlTransformer]"
  let ?post3 = "[ReorderArgs, Sed, Shorthands, UrlTransformer]"
  have tok: "Tokenize short_command (pickProfile ?pf) = Inr example_tokens"
    by (simp add: faults_file Tokenize_short_command)
  have d1: "distinct (map Name ([] @ ?CI # ?post1))"
    and d2: "distinct (map Name (?pre2 @ ?RC # ?post2))"
    and d3: "distinct (map Name (?pre3 @ Regex # ?post3))"
    using distinct_registry[of example_lib] by (simp_all add: modifiers_All_def)
  have n: "Name ?CI = ''CharacterInsertion''" "Name ?RC = ''RandomCase''" "Name Regex = ''Regex''"
    by (simp_all add: CharacterInsertion_def RandomCase_def Regex_def)
  have off: "\<forall>m'\<in>set ?post3. \<not> enabled_at faults_enabled (Name m')"
    by (simp add: faults_names ReorderArgs_def Sed_def Shorthands_def UrlTransformer_def)
  have r1: "apply_modifiers (pickProfile ?pf) faults_enabled [] example_tokens
              zero_ObfuscateResult example_rand =
            (example_tokens, zero_ObfuscateResult, example_rand)"
    by simp
  have r2: "apply_modifiers (pickProfile ?pf) faults_enabled ?pre2 example_tokens
              zero_ObfuscateResult example_rand =
            (example_tokens,
             zero_ObfuscateResult\<lparr>Errors := [''CharacterInsertion'' \<mapsto> invalid_config_error]\<rparr>,
             example_rand)"
    by (simp only: faults_file(2) faults_reach_RandomCase)
  have r3: "apply_modifiers (pickProfile ?pf) faults_enabled ?pre3 example_tokens
              zero_ObfuscateResult example_rand =
            (flipped_tokens,
             zero_ObfuscateResult\<lparr>Errors := [''CharacterInsertion'' \<mapsto> invalid_config_error],
                                   Applied := [''RandomCase'']\<rparr>,
             example_rand)"
    by (simp only: faults_file(2) faults_reach_Regex)
  have en: "enabled_at faults_enabled (Name ?CI)" "enabled_at faults_enabled (Name ?RC)"
    "enabled_at faults_enabled (Name Regex)"
    by (simp_all add: n faults_names)
  have cf: "Modifiers (Parameters (pickProfile ?pf)) (Name ?CI) = Some config_invalid"
    "Modifiers (Parameters (pickProfile ?pf)) (Name ?RC) = Some config_one"
    "Modifiers (Parameters (pickProfile ?pf)) (Name Regex) = Some config_one"
    by (simp_all add: n faults_names faults_file(2))
  note c1 = Obfuscate_modifier_fault_containment[OF faults_file(1) tok d1 r1 en(1) cf(1)
      faults_CharacterInsertion]
  note c2 = Obfuscate_modifier_fault_containment[OF faults_file(1) tok d2 r2 en(2) cf(2)
      faults_RandomCase]
  note c3 = Obfuscate_modifier_fault_containment[OF faults_file(1) tok d3 r3 en(3) cf(3)
      faults_Regex]
  have reg: "modifiers_All example_lib = ?CI # ?post1"
    by (simp add: modifiers_All_def)
  note a1 = c1[THEN conjunct1] and m1 = c1[THEN conjunct2, THEN conjunct2, THEN conjunct1]
  note a2 = c2[THEN conjunct1] and m2 = c2[THEN conjunct2, THEN conjunct2, THEN conjunct1]
  note a3 = c3[THEN conjunct1] and m3 = c3[THEN conjunct2, THEN conjunct2, THEN conjunct1]
    and o3 = c3[THEN conjunct2, THEN conjunct2, THEN conjunct2]
  from a1
  have s1: "apply_modifiers faults_profile faults_enabled [?CI]
     example_tokens zero_ObfuscateResult example_rand =
     (example_tokens,
      zero_ObfuscateResult\<lparr>Errors := [''CharacterInsertion'' \<mapsto> invalid_config_error]\<rparr>,
      example_rand)"
    by (simp add: n faults_file(2) invalid_config_error_def zero_ObfuscateResult_def
        del: apply_modifiers.simps)
  from m1
  have e1: "Errors (fst (fst (Obfuscate (modifiers_All example_lib) short_command
                       (Some ?pf) faults_enabled example_rand)))
               ''CharacterInsertion'' = Some invalid_config_error"
    by (simp add: reg n invalid_config_error_def)
  from a2
  have s2: "apply_modifiers faults_profile faults_enabled ?pre3
     example_tokens zero_ObfuscateResult example_rand =
     (flipped_tokens,
      zero_ObfuscateResult\<lparr>Errors := [''CharacterInsertion'' \<mapsto> invalid_config_error],
                            Applied := [''RandomCase'']\<rparr>,
      example_rand)"
    by (simp add: n faults_file(2) zero_ObfuscateResult_def del: apply_modifiers.simps)
  from m2
  have e2: "''RandomCase'' \<in> set (Applied (fst (fst (Obfuscate (modifiers_All example_lib)
                short_command (Some ?pf) faults_enabled example_rand))))"
    by (simp add: reg n)
  from a3
  have s3: "apply_modifiers faults_profile faults_enabled
     [?CI, FilePathTransformer, OptionCharSubstitution, QuoteInsertion, ?RC, Regex]
     example_tokens zero_ObfuscateResult example_rand =
     (flipped_tokens,
      zero_ObfuscateResult\<lparr>Errors := [''CharacterInsertion'' \<mapsto> invalid_config_error],
                            Applied := [''RandomCase''], Skipped := [''Regex'']\<rparr>,
      example_rand)"
    by (simp add: n faults_file(2) zero_ObfuscateResult_def del: apply_modifiers.simps)
  from m3
  have e3: "''Regex'' \<in> set (Skipped (fst (fst (Obfuscate (modifiers_All example_lib)
                short_command (Some ?pf) faults_enabled example_rand))))"
    by (simp add: reg n)
  from o3 off
  have o3': "Output (fst (fst (Obfuscate (modifiers_All example_lib) short_command
                       (Some ?pf) faults_enabled example_rand))) = Render flipped_tokens"
    by (simp add: reg n)
  from tok s1 s2 s3 e1 e2 e3 o3' show ?thesis
    by (simp only: Render_flipped_tokens) 
qed

text \<open>
  Claim C4. Obfuscate returns an error exactly when there is no profile file or it holds no
  profile, or the command is empty once trimmed; with an error it returns the zero result,
  so no partial output. In every other case the error is nil, whatever the modifiers do:
  when the names of the registered modifiers are distinct and Apply of an enabled,
  configured modifier returns an error at its turn of the loop, Obfuscate returns no error,
  the name of the modifier is not under Applied, and it stands under Skipped and not in
  Errors when the error is ErrNotImplemented, and in Errors with that error and not under
  Skipped otherwise.
\<close>

theorem Obfuscate_hard_failure_iff:
  "(snd (fst (Obfuscate registry command pf enabled g0)) \<noteq> None \<longleftrightarrow>
      (case pf of None \<Rightarrow> True | Some pf' \<Rightarrow> Profiles pf' = []) \<or>
      strings_TrimSpace command = []) \<and>
   (snd (fst (Obfuscate registry command pf enabled g0)) \<noteq> None \<longrightarrow>
      fst (fst (Obfuscate registry command pf enabled g0)) = zero_ObfuscateResult) \<and>
   (\<forall>pf' tokens0 pre m post tokens result g rawCfg modified e g1.
      pf = Some pf' \<and> Profiles pf' \<noteq> [] \<and>
      Tokenize command (pickProfile pf') = Inr tokens0 \<and>
      registry = pre @ m # post \<and> distinct (map Name registry) \<and>
      apply_modifiers (pickProfile pf') enabled pre tokens0 zero_ObfuscateResult g0 =
        (tokens, result, g) \<and>
      enabled_at enabled (Name m) \<and>
      Modifiers (Parameters (pickProfile pf')) (Name m) = Some rawCfg \<and>
      Apply m tokens rawCfg g = ((modified, Some e), g1) \<longrightarrow>
        snd (fst (Obfuscate registry command pf enabled g0)) = None \<and>
        Name m \<notin> set (Applied (fst (fst (Obfuscate registry command pf enabled g0)))) \<and>
        (if errors_Is e ErrNotImplemented
         then Name m \<in> set (Skipped (fst (fst (Obfuscate registry command pf enabled g0)))) \<and>
              Name m \<notin> dom (Errors (fst (fst (Obfuscate registry command pf enabled g0))))
         else Errors (fst (fst (Obfuscate registry command pf enabled g0))) (Name m) = Some e \<and>
              Name m \<notin> set (Skipped (fst (fst (Obfuscate registry command pf enabled g0))))))"
proof (intro conjI allI impI)
  show "snd (fst (Obfuscate registry command pf enabled g0)) \<noteq> None \<longleftrightarrow>
      (case pf of None \<Rightarrow> True | Some pf' \<Rightarrow> Profiles pf' = []) \<or>
      strings_TrimSpace command = []"
  proof (cases pf)
    case None
    then show ?thesis by (simp add: Obfuscate_def)
  next
    case (Some pf')
    show ?thesis
    proof (cases "Profiles pf' = []")
      case True
      with Some show ?thesis by (simp add: Obfuscate_def)
    next
      case False
      show ?thesis
      proof (cases "Tokenize command (pickProfile pf')")
        case (Inl e)
        then have "strings_TrimSpace command = []" using Tokenize_error by blast
        with Some False Inl show ?thesis by (simp add: Obfuscate_def)
      next
        case (Inr tokens)
        then have "strings_TrimSpace command \<noteq> []"
          using Tokenize_error[of command "pickProfile pf'"] by auto
        with Some False show ?thesis
          by (simp add: Obfuscate_run[OF False Inr] split_beta)
      qed
    qed
  qed
next
  assume "snd (fst (Obfuscate registry command pf enabled g0)) \<noteq> None"
  then show "fst (fst (Obfuscate registry command pf enabled g0)) = zero_ObfuscateResult"
    by (auto simp: Obfuscate_def Let_def split_beta split: option.splits if_splits sum.splits)
next
  fix pf' tokens0 pre m post tokens result g rawCfg modified e g1
  assume h: "pf = Some pf' \<and> Profiles pf' \<noteq> [] \<and>
      Tokenize command (pickProfile pf') = Inr tokens0 \<and>
      registry = pre @ m # post \<and> distinct (map Name registry) \<and>
      apply_modifiers (pickProfile pf') enabled pre tokens0 zero_ObfuscateResult g0 =
        (tokens, result, g) \<and>
      enabled_at enabled (Name m) \<and>
      Modifiers (Parameters (pickProfile pf')) (Name m) = Some rawCfg \<and>
      Apply m tokens rawCfg g = ((modified, Some e), g1)"
  then have pf: "pf = Some pf'" and ne: "Profiles pf' \<noteq> []"
    and tok: "Tokenize command (pickProfile pf') = Inr tokens0"
    and reg: "registry = pre @ m # post" and d0: "distinct (map Name registry)"
    and reach: "apply_modifiers (pickProfile pf') enabled pre tokens0 zero_ObfuscateResult g0 =
        (tokens, result, g)"
    and en: "enabled_at enabled (Name m)"
    and cf: "Modifiers (Parameters (pickProfile pf')) (Name m) = Some rawCfg"
    and ap: "Apply m tokens rawCfg g = ((modified, Some e), g1)"
    by blast+
  from d0 reg have d: "distinct (map Name (pre @ m # post))" by simp
  obtain tokens2 result2 g2 where
    fin: "apply_modifiers (pickProfile pf') enabled (pre @ m # post) tokens0
            zero_ObfuscateResult g0 = (tokens2, result2, g2)"
    by (metis prod.exhaust)
  have ob: "Obfuscate registry command pf enabled g0 =
              ((result2\<lparr>Output := Render tokens2\<rparr>, None), g2)"
    using fin by (simp add: pf reg Obfuscate_run[OF ne tok])
  from apply_modifiers_report[OF d reach en cf ap fin]
  have rep: "Name m \<notin> set (Applied result2) \<and>
             (if errors_Is e ErrNotImplemented
              then Name m \<in> set (Skipped result2) \<and> Name m \<notin> dom (Errors result2)
              else Errors result2 (Name m) = Some e \<and> Name m \<notin> set (Skipped result2))"
    by simp
  show "snd (fst (Obfuscate registry command pf enabled g0)) = None"
    by (simp add: ob)
  show "Name m \<notin> set (Applied (fst (fst (Obfuscate registry command pf enabled g0))))"
    using rep by (simp add: ob)
  show "if errors_Is e ErrNotImplemented
         then Name m \<in> set (Skipped (fst (fst (Obfuscate registry command pf enabled g0)))) \<and>
              Name m \<notin> dom (Errors (fst (fst (Obfuscate registry command pf enabled g0))))
         else Errors (fst (fst (Obfuscate registry command pf enabled g0))) (Name m) = Some e \<and>
              Name m \<notin> set (Skipped (fst (fst (Obfuscate registry command pf enabled g0))))"
    using rep by (simp add: ob)
qed

theorem Obfuscate_hard_failure_iff_witness:
  "strings_TrimSpace (text_of ''  '') = [] \<and>
   snd (fst (Obfuscate (modifiers_All example_lib) (text_of ''  '')
               (Some \<lparr>Profiles = [faults_profile]\<rparr>) faults_enabled example_rand)) \<noteq> None \<and>
   fst (fst (Obfuscate (modifiers_All example_lib) (text_of ''  '')
               (Some \<lparr>Profiles = [faults_profile]\<rparr>) faults_enabled example_rand)) =
     zero_ObfuscateResult \<and>
   strings_TrimSpace short_command \<noteq> [] \<and>
   snd (fst (Obfuscate (modifiers_All example_lib) short_command
               (Some \<lparr>Profiles = [faults_profile]\<rparr>) faults_enabled example_rand)) = None \<and>
   ''CharacterInsertion'' \<notin> set (Applied (fst (fst (Obfuscate (modifiers_All example_lib)
       short_command (Some \<lparr>Profiles = [faults_profile]\<rparr>) faults_enabled example_rand)))) \<and>
   Errors (fst (fst (Obfuscate (modifiers_All example_lib) short_command
       (Some \<lparr>Profiles = [faults_profile]\<rparr>) faults_enabled example_rand)))
     ''CharacterInsertion'' = Some invalid_config_error \<and>
   ''CharacterInsertion'' \<notin> set (Skipped (fst (fst (Obfuscate (modifiers_All example_lib)
       short_command (Some \<lparr>Profiles = [faults_profile]\<rparr>) faults_enabled example_rand)))) \<and>
   ''Regex'' \<notin> set (Applied (fst (fst (Obfuscate (modifiers_All example_lib)
       short_command (Some \<lparr>Profiles = [faults_profile]\<rparr>) faults_enabled example_rand)))) \<and>
   ''Regex'' \<in> set (Skipped (fst (fst (Obfuscate (modifiers_All example_lib)
       short_command (Some \<lparr>Profiles = [faults_profile]\<rparr>) faults_enabled example_rand)))) \<and>
   ''Regex'' \<notin> dom (Errors (fst (fst (Obfuscate (modifiers_All example_lib)
       short_command (Some \<lparr>Profiles = [faults_profile]\<rparr>) faults_enabled example_rand))))"
proof -
  let ?pf = "\<lparr>Profiles = [faults_profile]\<rparr>"
  let ?CI = "CharacterInsertion example_lib"
  let ?RC = "RandomCase example_lib"
  let ?R = "modifiers_All example_lib"
  let ?pre3 = "[?CI, FilePathTransformer, OptionCharSubstitution, QuoteInsertion, ?RC]"
  let ?post1 = "[FilePathTransformer, OptionCharSubstitution, QuoteInsertion, ?RC, Regex,
                 ReorderArgs, Sed, Shorthands, UrlTransformer]"
  let ?post3 = "[ReorderArgs, Sed, Shorthands, UrlTransformer]"
  note blank = Obfuscate_hard_failure_iff[of ?R "text_of ''  ''" "Some ?pf" faults_enabled
      example_rand]
  note short = Obfuscate_hard_failure_iff[of ?R short_command "Some ?pf" faults_enabled
      example_rand]
  have t: "strings_TrimSpace (text_of ''  '') = []"
    by (simp add: strings_TrimSpace_def text_of_def unicode_IsSpace_def)
  have n: "strings_TrimSpace short_command \<noteq> []"
    by (simp add: strings_TrimSpace_def short_command_def text_of_def unicode_IsSpace_def)
  from blank[THEN conjunct1] t
  have e: "snd (fst (Obfuscate ?R (text_of ''  '') (Some ?pf) faults_enabled example_rand)) \<noteq> None"
    by simp
  with blank[THEN conjunct2, THEN conjunct1]
  have z: "fst (fst (Obfuscate ?R (text_of ''  '') (Some ?pf) faults_enabled example_rand)) =
             zero_ObfuscateResult"
    by blast
  have tok: "Tokenize short_command (pickProfile ?pf) = Inr example_tokens"
    by (simp add: faults_file Tokenize_short_command)
  have nm: "Name ?CI = ''CharacterInsertion''" "Name Regex = ''Regex''"
    by (simp_all add: CharacterInsertion_def Regex_def)
  have reg1: "?R = [] @ ?CI # ?post1" and reg3: "?R = ?pre3 @ Regex # ?post3"
    by (simp_all add: modifiers_All_def)
  have h1: "Some ?pf = Some ?pf \<and> Profiles ?pf \<noteq> [] \<and>
      Tokenize short_command (pickProfile ?pf) = Inr example_tokens \<and>
      ?R = [] @ ?CI # ?post1 \<and> distinct (map Name ?R) \<and>
      apply_modifiers (pickProfile ?pf) faults_enabled [] example_tokens zero_ObfuscateResult
        example_rand = (example_tokens, zero_ObfuscateResult, example_rand) \<and>
      enabled_at faults_enabled (Name ?CI) \<and>
      Modifiers (Parameters (pickProfile ?pf)) (Name ?CI) = Some config_invalid \<and>
      Apply ?CI example_tokens config_invalid example_rand =
        ((example_tokens, Some invalid_config_error), example_rand)"
    using tok reg1 distinct_registry[of example_lib] faults_CharacterInsertion
    by (simp add: nm faults_names faults_file)
  have h3: "Some ?pf = Some ?pf \<and> Profiles ?pf \<noteq> [] \<and>
      Tokenize short_command (pickProfile ?pf) = Inr example_tokens \<and>
      ?R = ?pre3 @ Regex # ?post3 \<and> distinct (map Name ?R) \<and>
      apply_modifiers (pickProfile ?pf) faults_enabled ?pre3 example_tokens
        zero_ObfuscateResult example_rand =
        (flipped_tokens,
         zero_ObfuscateResult\<lparr>Errors := [''CharacterInsertion'' \<mapsto> invalid_config_error],
                               Applied := [''RandomCase'']\<rparr>,
         example_rand) \<and>
      enabled_at faults_enabled (Name Regex) \<and>
      Modifiers (Parameters (pickProfile ?pf)) (Name Regex) = Some config_one \<and>
      Apply Regex flipped_tokens config_one example_rand =
        ((flipped_tokens, Some ErrNotImplemented), example_rand)"
    using tok reg3 distinct_registry[of example_lib] faults_Regex faults_reach_Regex
    by (simp add: nm faults_names faults_file del: apply_modifiers.simps)
  from short[THEN conjunct2, THEN conjunct2, rule_format, OF h1]
  have c1: "snd (fst (Obfuscate ?R short_command (Some ?pf) faults_enabled example_rand)) = None"
    "''CharacterInsertion'' \<notin> set (Applied (fst (fst (Obfuscate ?R short_command (Some ?pf)
        faults_enabled example_rand))))"
    "Errors (fst (fst (Obfuscate ?R short_command (Some ?pf) faults_enabled example_rand)))
       ''CharacterInsertion'' = Some invalid_config_error"
    "''CharacterInsertion'' \<notin> set (Skipped (fst (fst (Obfuscate ?R short_command (Some ?pf)
        faults_enabled example_rand))))"
    by (simp_all add: nm invalid_config_error_def)
  from short[THEN conjunct2, THEN conjunct2, rule_format, OF h3]
  have c3: "''Regex'' \<notin> set (Applied (fst (fst (Obfuscate ?R short_command (Some ?pf)
        faults_enabled example_rand))))"
    "''Regex'' \<in> set (Skipped (fst (fst (Obfuscate ?R short_command (Some ?pf)
        faults_enabled example_rand))))"
    "''Regex'' \<notin> dom (Errors (fst (fst (Obfuscate ?R short_command (Some ?pf)
        faults_enabled example_rand))))"
    by (simp_all add: nm)
  from t e z n c1 c3 show ?thesis by (intro conjI)
qed

section \<open>RandomCase: properties\<close>

lemma rand_in_range_tail: "rand_in_range g \<Longrightarrow> rand_in_range (snd (rand_Float64 g))"
  by (simp add: rand_in_range_def rand_Float64_def)

lemma rand_in_range_head:
  "rand_in_range g \<Longrightarrow> 0 \<le> fst (rand_Float64 g) \<and> fst (rand_Float64 g) < 1"
  by (simp add: rand_in_range_def rand_Float64_def)

lemma example_rand_in_range: "rand_in_range example_rand"
  by (simp add: rand_in_range_def example_rand_def)

lemma flip_runes_range: "rand_in_range g \<Longrightarrow> rand_in_range (snd (flip_runes L p rs g))"
proof (induction rs arbitrary: g)
  case Nil
  then show ?case by simp
next
  case (Cons r rs)
  from Cons.IH[OF rand_in_range_tail[OF Cons.prems]] show ?case
    by (simp add: split_beta Let_def)
qed

text \<open>A draw is never below 0, so with probability 0 no rune is touched.\<close>

lemma flip_runes_zero: "rand_in_range g \<Longrightarrow> fst (flip_runes L (Fin 0) rs g) = rs"
proof (induction rs arbitrary: g)
  case Nil
  then show ?case by simp
next
  case (Cons r rs)
  from Cons.IH[OF rand_in_range_tail[OF Cons.prems]] rand_in_range_head[OF Cons.prems]
  show ?case by (simp add: split_beta Let_def)
qed

text \<open>A draw is always below 1, so with probability 1 every rune is flipped.\<close>
lemma flip_runes_one:
  "rand_in_range g \<Longrightarrow> fst (flip_runes L (Fin 1) rs g) = map (flip_case L) rs"
proof (induction rs arbitrary: g)
  case Nil
  then show ?case by simp
next
  case (Cons r rs)
  from Cons.IH[OF rand_in_range_tail[OF Cons.prems]] rand_in_range_head[OF Cons.prems]
  show ?case by (simp add: split_beta Let_def)
qed

text \<open>
  With probability 0 an eligible value is still converted to runes and back; with
  probability 1 every rune in between is flipped.
\<close>

lemma RandomCase_tokens_zero:
  "rand_in_range g \<Longrightarrow> fst (RandomCase_tokens L c (Fin 0) ts g) =
     map (\<lambda>t. if Type t \<in> set (AppliesTo c)
               then t\<lparr>Value := string_of (runes_of (Value t))\<rparr> else t) ts"
proof (induction ts arbitrary: g)
  case Nil
  then show ?case by simp
next
  case (Cons t ts)
  show ?case
  proof (cases "Type t \<in> set (AppliesTo c)")
    case False
    with Cons.IH[OF Cons.prems] show ?thesis by (simp add: split_beta)
  next
    case True
    with Cons.IH[OF flip_runes_range[OF Cons.prems]] flip_runes_zero[OF Cons.prems]
    show ?thesis by (simp add: split_beta)
  qed
qed

lemma RandomCase_tokens_one:
  "rand_in_range g \<Longrightarrow> fst (RandomCase_tokens L c (Fin 1) ts g) =
     map (\<lambda>t. if Type t \<in> set (AppliesTo c)
               then t\<lparr>Value := string_of (map (flip_case L) (runes_of (Value t)))\<rparr> else t) ts"
proof (induction ts arbitrary: g)
  case Nil
  then show ?case by simp
next
  case (Cons t ts)
  show ?case
  proof (cases "Type t \<in> set (AppliesTo c)")
    case False
    with Cons.IH[OF Cons.prems] show ?thesis by (simp add: split_beta)
  next
    case True
    with Cons.IH[OF flip_runes_range[OF Cons.prems]] flip_runes_one[OF Cons.prems]
    show ?thesis by (simp add: split_beta)
  qed
qed

lemma RandomCase_tokens_types:
  "map Type (fst (RandomCase_tokens L c p ts g)) = map Type ts"
  by (induction ts arbitrary: g) (simp_all add: split_beta)

lemma RandomCase_tokens_length: "length (fst (RandomCase_tokens L c p ts g)) = length ts"
  using RandomCase_tokens_types[of L c p ts g] by (metis length_map)

lemma RandomCase_tokens_ineligible:
  "i < length ts \<Longrightarrow> Type (ts ! i) \<notin> set (AppliesTo c) \<Longrightarrow>
   fst (RandomCase_tokens L c p ts g) ! i = ts ! i"
proof (induction ts arbitrary: g i)
  case Nil
  then show ?case by simp
next
  case (Cons t ts)
  then show ?case by (cases i) (simp_all add: split_beta)
qed

lemma flip_case_ascii:
  "r \<le> MaxASCII \<Longrightarrow> flip_case L r =
     (if 65 \<le> r \<and> r \<le> 90 then r + 32 else if 97 \<le> r \<and> r \<le> 122 then r - 32 else r)"
  by (simp add: flip_case_def unicode_IsUpper_def unicode_ToLower_def unicode_ToUpper_def)

lemma RandomCase_Apply_types:
  "RandomCase_Apply L tokens cfg g = ((out, err), g1) \<Longrightarrow> map Type out = map Type tokens"
  using RandomCase_tokens_types[of L _ _ tokens g]
  by (auto simp: RandomCase_Apply_def split_beta split: sum.splits if_splits)

lemma RandomCase_Apply_length:
  "length (fst (fst (RandomCase_Apply L ts cfg g))) = length ts"
  by (simp add: RandomCase_Apply_def RandomCase_tokens_length split_beta split: sum.splits)

lemma RandomCase_Apply_ineligible:
  assumes "i < length tokens"
    and "\<forall>c. json_Unmarshal_Base L cfg = Inr c \<longrightarrow> Type (tokens ! i) \<notin> set (AppliesTo c)"
  shows "fst (fst (RandomCase_Apply L tokens cfg g)) ! i = tokens ! i"
proof (cases "json_Unmarshal_Base L cfg")
  case (Inl e)
  then show ?thesis by (simp add: RandomCase_Apply_def)
next
  case (Inr c)
  with assms have ne: "Type (tokens ! i) \<notin> set (AppliesTo c)" by simp
  show ?thesis
    using Inr RandomCase_tokens_ineligible[OF assms(1) ne, of L _ g]
    by (simp add: RandomCase_Apply_def split_beta split: sum.splits)
qed

text \<open>The example run of RandomCase.\<close>

lemma RandomCase_Apply_example:
  "fst (RandomCase_Apply example_lib example_tokens
          config_one example_rand) =
     ([\<lparr>Type = TokenTypeCommand, Value = text_of ''a.exe''\<rparr>,
       \<lparr>Type = TokenTypeArgument, Value = text_of ''-URLCACHE''\<rparr>], None)"
  by (simp add: RandomCase_Apply_def example_lib_def config_one_def example_rand_def
      rand_Float64_def example_tokens_def TokenTypeCommand_def
      TokenTypeArgument_def text_of_def flip_case_def unicode_IsUpper_def unicode_ToUpper_def
      unicode_ToLower_def MaxASCII_def runes_of_def string_of_def valid_rune_def split_beta)

section \<open>The registry: properties\<close>

lemma registry_cases:
  "m \<in> set (modifiers_All L) \<Longrightarrow>
   Apply m = CharacterInsertion_Apply L \<or> Apply m = RandomCase_Apply L \<or> Apply m = stub_Apply"
  by (auto simp: modifiers_All_def CharacterInsertion_def RandomCase_def
      FilePathTransformer_def OptionCharSubstitution_def QuoteInsertion_def Regex_def
      ReorderArgs_def Sed_def Shorthands_def UrlTransformer_def)

lemma registry_names:
  "m \<in> set (modifiers_All L) \<Longrightarrow> Name m = ''CharacterInsertion'' \<Longrightarrow>
     Apply m = CharacterInsertion_Apply L"
  "m \<in> set (modifiers_All L) \<Longrightarrow> Name m \<noteq> ''CharacterInsertion'' \<Longrightarrow>
     Name m \<noteq> ''RandomCase'' \<Longrightarrow> Apply m = stub_Apply"
  by (auto simp: modifiers_All_def CharacterInsertion_def RandomCase_def
      FilePathTransformer_def OptionCharSubstitution_def QuoteInsertion_def Regex_def
      ReorderArgs_def Sed_def Shorthands_def UrlTransformer_def)

lemma registry_members:
  "CharacterInsertion L \<in> set (modifiers_All L)"
  "RandomCase L \<in> set (modifiers_All L)"
  by (simp_all add: modifiers_All_def)

lemma stub_Apply_same: "stub_Apply tokens cfg g = ((tokens, Some ErrNotImplemented), g)"
  by (simp add: stub_Apply_def)

lemma CharacterInsertion_Apply_fails:
  "\<exists>e. CharacterInsertion_Apply L tokens cfg g = ((tokens, Some e), g)"
  by (simp add: CharacterInsertion_Apply_def split: sum.splits)

text \<open>
  Claim C5. With Probability "1.0" the eligible argument -urlcache becomes -URLCACHE. But
  the boundary does not hold of every value. Apply never asks whether a rune is a letter: it
  replaces a rune by its lower case when unicode.IsUpper holds of it and by its upper case
  otherwise. So with Probability "1.0" the symbol U+24D0 and the combining
  mark U+0345, which are no letters, become U+24B6 and U+0399, and the letter U+00DF, which
  has no upper case of one rune, stays as it is. And Apply converts the value of every
  eligible token to runes and back, also when no rune is flipped: with Probability "0.0" a
  value that consists of the byte FF, which is no valid UTF-8, comes back as U+FFFD.
\<close>

theorem RandomCase_probability_boundary_fails:
  "fst (RandomCase_Apply example_lib
          [\<lparr>Type = TokenTypeArgument, Value = text_of ''-urlcache''\<rparr>] config_one example_rand) =
     ([\<lparr>Type = TokenTypeArgument, Value = text_of ''-URLCACHE''\<rparr>], None) \<and>
   \<not> unicode_IsLetter example_lib 9424 \<and>
   fst (RandomCase_Apply example_lib
          [\<lparr>Type = TokenTypeArgument, Value = [Rune 9424]\<rparr>] config_one example_rand) =
     ([\<lparr>Type = TokenTypeArgument, Value = [Rune 9398]\<rparr>], None) \<and>
   \<not> unicode_IsLetter example_lib 837 \<and>
   fst (RandomCase_Apply example_lib
          [\<lparr>Type = TokenTypeArgument, Value = [Rune 837]\<rparr>] config_one example_rand) =
     ([\<lparr>Type = TokenTypeArgument, Value = [Rune 921]\<rparr>], None) \<and>
   unicode_IsLetter example_lib 223 \<and>
   fst (RandomCase_Apply example_lib
          [\<lparr>Type = TokenTypeArgument, Value = [Rune 223]\<rparr>] config_one example_rand) =
     ([\<lparr>Type = TokenTypeArgument, Value = [Rune 223]\<rparr>], None) \<and>
   fst (RandomCase_Apply example_lib
          [\<lparr>Type = TokenTypeArgument, Value = [BadByte (CHR 0xFF)]\<rparr>] config_zero example_rand) =
     ([\<lparr>Type = TokenTypeArgument, Value = [Rune 65533]\<rparr>], None) \<and>
   [Rune 65533] \<noteq> [BadByte (CHR 0xFF)]"
  by (simp add: RandomCase_Apply_def example_lib_def config_one_def config_zero_def
      config_insert_def example_rand_def rand_Float64_def TokenTypeArgument_def text_of_def
      flip_case_def unicode_IsUpper_def unicode_ToUpper_def unicode_ToLower_def
      unicode_IsLetter_def MaxASCII_def runes_of_def string_of_def valid_rune_def RuneError_def
      split_beta)

text \<open>
  Claim C6. For every registered modifier other than ReorderArgs, when Apply returns no
  error, its output has as many tokens as its input, and each token of the output has the
  type of the input token at the same index.
\<close>

theorem modifiers_preserve_count_and_types:
  "\<forall>m\<in>set (modifiers_All L). Name m \<noteq> ''ReorderArgs'' \<longrightarrow>
     Apply m tokens cfg g = ((out, None), g1) \<longrightarrow>
     length out = length tokens \<and> (\<forall>i<length tokens. Type (out ! i) = Type (tokens ! i))"
proof (intro ballI impI)
  fix m
  assume m: "m \<in> set (modifiers_All L)" and ap: "Apply m tokens cfg g = ((out, None), g1)"
  have "map Type out = map Type tokens"
    using registry_cases[OF m] ap CharacterInsertion_Apply_fails[of L tokens cfg g]
      RandomCase_Apply_types[of L tokens cfg g out None g1]
    by (auto simp: stub_Apply_def)
  then show "length out = length tokens \<and> (\<forall>i<length tokens. Type (out ! i) = Type (tokens ! i))"
    by (metis length_map nth_map)
qed

theorem modifiers_preserve_count_and_types_witness:
  "RandomCase example_lib \<in> set (modifiers_All example_lib) \<and>
   Name (RandomCase example_lib) \<noteq> ''ReorderArgs'' \<and>
   snd (fst (Apply (RandomCase example_lib)
               example_tokens config_one example_rand)) = None \<and>
   length (fst (fst (Apply (RandomCase example_lib)
               example_tokens config_one example_rand))) =
     length example_tokens \<and>
   Type (fst (fst (Apply (RandomCase example_lib)
            example_tokens config_one example_rand)) ! 0) =
     Type (example_tokens ! 0) \<and>
   Type (fst (fst (Apply (RandomCase example_lib)
            example_tokens config_one example_rand)) ! 1) =
     Type (example_tokens ! 1)"
proof -
  let ?ts = "example_tokens"
  let ?r = "Apply (RandomCase example_lib) ?ts config_one example_rand"
  have n: "Name (RandomCase example_lib) \<noteq> ''ReorderArgs''" by (simp add: RandomCase_def)
  have s: "snd (fst ?r) = None"
    using RandomCase_Apply_example by (simp add: RandomCase_def)
  then have ap: "?r = ((fst (fst ?r), None), snd ?r)"
    by (metis prod.collapse)
  from modifiers_preserve_count_and_types[of example_lib ?ts config_one example_rand
         "fst (fst ?r)" "snd ?r"] registry_members(2)[of example_lib] n ap
  have "length (fst (fst ?r)) = length ?ts \<and>
        (\<forall>i<length ?ts. Type (fst (fst ?r) ! i) = Type (?ts ! i))"
    by blast
  moreover have "length ?ts = 2" by (simp add: example_tokens_def)
  ultimately show ?thesis
    using registry_members(2)[of example_lib] n s by simp
qed

text \<open>
  Claim C7. For every registered modifier, a token whose type is not in the AppliesTo list
  of the configuration comes back with its value unchanged, at the same index, whatever the
  configured probability and the random source. A configuration that does not decode has no
  AppliesTo list.
\<close>

theorem modifiers_eligibility_filter:
  "\<forall>m\<in>set (modifiers_All L). i < length tokens \<longrightarrow>
     (\<forall>c. ParseConfig L cfg = Inr c \<longrightarrow> Type (tokens ! i) \<notin> set (AppliesTo c)) \<longrightarrow>
     i < length (fst (fst (Apply m tokens cfg g))) \<and>
     Value (fst (fst (Apply m tokens cfg g)) ! i) = Value (tokens ! i)"
proof (intro ballI impI)
  fix m
  assume m: "m \<in> set (modifiers_All L)" and i: "i < length tokens"
    and ne: "\<forall>c. ParseConfig L cfg = Inr c \<longrightarrow> Type (tokens ! i) \<notin> set (AppliesTo c)"
  from ne have ne':
    "\<forall>c. json_Unmarshal_Base L cfg = Inr c \<longrightarrow> Type (tokens ! i) \<notin> set (AppliesTo c)"
    by (simp add: ParseConfig_def)
  from registry_cases[OF m]
  show "i < length (fst (fst (Apply m tokens cfg g))) \<and>
        Value (fst (fst (Apply m tokens cfg g)) ! i) = Value (tokens ! i)"
    using CharacterInsertion_Apply_fails[of L tokens cfg g]
      RandomCase_Apply_ineligible[OF i ne', of g] RandomCase_Apply_length[of L tokens cfg g] i
    by (auto simp: stub_Apply_same)
qed

theorem modifiers_eligibility_filter_witness:
  "RandomCase example_lib \<in> set (modifiers_All example_lib) \<and>
   0 < length example_tokens \<and>
   ParseConfig example_lib config_one =
     Inr \<lparr>AppliesTo = [''argument''], Probability = ''1.0''\<rparr> \<and>
   Type (example_tokens ! 0) \<notin> set [''argument''] \<and>
   Value (fst (fst (Apply (RandomCase example_lib)
            example_tokens config_one example_rand)) ! 0) =
     text_of ''a.exe'' \<and>
   Value (fst (fst (Apply (RandomCase example_lib)
            example_tokens config_one example_rand)) ! 1) =
     text_of ''-URLCACHE''"
proof -
  let ?ts = "example_tokens"
  have l: "0 < length ?ts" by (simp add: example_tokens_def)
  have t0: "?ts ! 0 = \<lparr>Type = TokenTypeCommand, Value = text_of ''a.exe''\<rparr>"
    by (simp add: example_tokens_def)
  have c: "\<forall>c. ParseConfig example_lib config_one = Inr c \<longrightarrow>
             Type (?ts ! 0) \<notin> set (AppliesTo c)"
    by (auto simp: t0 ParseConfig_def example_lib_def TokenTypeCommand_def)
  from modifiers_eligibility_filter[of example_lib 0 ?ts config_one example_rand]
    registry_members(2)[of example_lib] l c
  have "Value (fst (fst (Apply (RandomCase example_lib) ?ts config_one example_rand)) ! 0) =
        Value (?ts ! 0)"
    by blast
  moreover have
    "Value (fst (fst (Apply (RandomCase example_lib) ?ts config_one example_rand)) ! 1) =
       text_of ''-URLCACHE''"
    using RandomCase_Apply_example by (simp add: RandomCase_def)
  moreover have "ParseConfig example_lib config_one =
                   Inr \<lparr>AppliesTo = [''argument''], Probability = ''1.0''\<rparr>"
    by (simp add: ParseConfig_def example_lib_def)
  ultimately show ?thesis
    using registry_members(2)[of example_lib] l by (simp add: t0 TokenTypeCommand_def)
qed

section \<open>RandomCase over the store: properties\<close>

lemma take_Suc_update: "k < length a \<Longrightarrow> take (Suc k) (a[k := v]) = take k a @ [v]"
  by (simp add: take_Suc_conv_app_nth)

lemma contents_append: "base s < length h \<Longrightarrow> contents (h @ hs) s = contents h s"
  by (simp add: contents_def nth_append)

lemma contents_new:
  "length xs = n \<Longrightarrow> contents (h @ [xs]) \<lparr>base = length h, off = 0, len = n\<rparr> = xs"
  by (simp add: contents_def)

lemma contents_length: "slice_ok h s \<Longrightarrow> length (contents h s) = len s"
  by (auto simp: contents_def slice_ok_def)

text \<open>
  The loop from index k on, when out is another array than the input's and still agrees
  with the input from k on: it writes into out what the loop over the token list computes,
  and nothing else.
\<close>

lemma RandomCase_loop_store_refines:
  assumes "b \<noteq> bt" "b < length h" "bt < length h" "ot + n \<le> length (h ! bt)"
    and "length (h ! b) = n" "k \<le> n"
    and "drop k (h ! b) = drop k (take n (drop ot (h ! bt)))"
  shows "RandomCase_loop_store L c p \<lparr>base = bt, off = ot, len = n\<rparr>
           \<lparr>base = b, off = 0, len = n\<rparr> [k..<n] h g =
     (h[b := take k (h ! b) @
              fst (RandomCase_tokens L c p (drop k (take n (drop ot (h ! bt)))) g)],
      snd (RandomCase_tokens L c p (drop k (take n (drop ot (h ! bt)))) g))"
  using assms
proof (induction "n - k" arbitrary: k h g)
  case 0
  then have "k = n" by simp
  with 0 show ?case by (simp add: list_update_same_conv)
next
  case (Suc d)
  then have kn: "k < n" by simp
  define xs where "xs = take n (drop ot (h ! bt))"
  define a where "a = h ! b"
  have lx: "length xs = n" using Suc.prems by (simp add: xs_def)
  have la: "length a = n" using Suc.prems by (simp add: a_def)
  have xk: "h ! bt ! (ot + k) = xs ! k" using kn Suc.prems by (simp add: xs_def)
  have dk: "drop k xs = xs ! k # drop (Suc k) xs" by (metis Cons_nth_drop_Suc kn lx)
  have da: "drop k a = drop k xs" using Suc.prems(7) by (simp add: xs_def a_def)
  have ak: "a ! k = xs ! k" using da kn lx la by (metis Cons_nth_drop_Suc nth_via_drop)
  have dsa: "drop (Suc k) a = drop (Suc k) xs" using da by (metis drop_Suc tl_drop)
  have upt: "[k..<n] = k # [Suc k..<n]" using kn by (simp add: upt_conv_Cons)
  have d: "d = n - Suc k" using Suc.hyps(2) by simp
  have sk: "Suc k \<le> n" using kn by simp
  show ?case
  proof (cases "Type (xs ! k) \<in> set (AppliesTo c)")
    case False
    have "RandomCase_loop_store L c p \<lparr>base = bt, off = ot, len = n\<rparr>
            \<lparr>base = b, off = 0, len = n\<rparr> [Suc k..<n] h g =
          (h[b := take (Suc k) (h ! b) @
                   fst (RandomCase_tokens L c p (drop (Suc k) (take n (drop ot (h ! bt)))) g)],
           snd (RandomCase_tokens L c p (drop (Suc k) (take n (drop ot (h ! bt)))) g))"
      apply (rule Suc.hyps(1)[OF d Suc.prems(1-5) sk])
      using dsa by (simp add: xs_def a_def)
    then have IH: "RandomCase_loop_store L c p \<lparr>base = bt, off = ot, len = n\<rparr>
            \<lparr>base = b, off = 0, len = n\<rparr> [Suc k..<n] h g =
          (h[b := take (Suc k) a @ fst (RandomCase_tokens L c p (drop (Suc k) xs) g)],
           snd (RandomCase_tokens L c p (drop (Suc k) xs) g))"
      by (simp add: xs_def a_def)
    have tk: "take (Suc k) a = take k a @ [xs ! k]"
      using kn la ak by (simp add: take_Suc_conv_app_nth)
    have step: "RandomCase_loop_store L c p \<lparr>base = bt, off = ot, len = n\<rparr>
                  \<lparr>base = b, off = 0, len = n\<rparr> [k..<n] h g =
                RandomCase_loop_store L c p \<lparr>base = bt, off = ot, len = n\<rparr>
                  \<lparr>base = b, off = 0, len = n\<rparr> [Suc k..<n] h g"
      using False by (simp add: upt slice_get_def xk)
    have pure: "RandomCase_tokens L c p (drop k xs) g =
                  (xs ! k # fst (RandomCase_tokens L c p (drop (Suc k) xs) g),
                   snd (RandomCase_tokens L c p (drop (Suc k) xs) g))"
      using False by (simp add: dk split_beta)
    show ?thesis
      unfolding step IH xs_def[symmetric] a_def[symmetric] pure by (simp add: tk)
  next
    case True
    define r where "r = flip_runes L p (runes_of (Value (xs ! k))) g"
    define v where "v = (xs ! k)\<lparr>Value := string_of (fst r)\<rparr>"
    define h1 where "h1 = h[b := a[k := v]]"
    have h1b: "h1 ! b = a[k := v]" using Suc.prems(2) by (simp add: h1_def)
    have h1bt: "h1 ! bt = h ! bt" using Suc.prems(1) by (simp add: h1_def)
    have lh1: "length h1 = length h" by (simp add: h1_def)
    have "RandomCase_loop_store L c p \<lparr>base = bt, off = ot, len = n\<rparr>
            \<lparr>base = b, off = 0, len = n\<rparr> [Suc k..<n] h1 (snd r) =
          (h1[b := take (Suc k) (h1 ! b) @
                    fst (RandomCase_tokens L c p
                           (drop (Suc k) (take n (drop ot (h1 ! bt)))) (snd r))],
           snd (RandomCase_tokens L c p (drop (Suc k) (take n (drop ot (h1 ! bt)))) (snd r)))"
      apply (rule Suc.hyps(1)[OF d Suc.prems(1) _ _ _ _ sk])
      using Suc.prems(2-4) la dsa by (simp_all add: h1bt lh1 h1b xs_def[symmetric])
    then have IH: "RandomCase_loop_store L c p \<lparr>base = bt, off = ot, len = n\<rparr>
            \<lparr>base = b, off = 0, len = n\<rparr> [Suc k..<n] h1 (snd r) =
          (h[b := take k a @ [v] @ fst (RandomCase_tokens L c p (drop (Suc k) xs) (snd r))],
           snd (RandomCase_tokens L c p (drop (Suc k) xs) (snd r)))"
      using kn la Suc.prems(2)
      by (simp add: h1bt h1b xs_def[symmetric] take_Suc_update) (simp add: h1_def)
    have step: "RandomCase_loop_store L c p \<lparr>base = bt, off = ot, len = n\<rparr>
                  \<lparr>base = b, off = 0, len = n\<rparr> [k..<n] h g =
                RandomCase_loop_store L c p \<lparr>base = bt, off = ot, len = n\<rparr>
                  \<lparr>base = b, off = 0, len = n\<rparr> [Suc k..<n] h1 (snd r)"
      using True ak
      by (simp add: upt slice_get_def xk split_beta slice_set_Value_def r_def[symmetric]
          a_def[symmetric] v_def[symmetric] h1_def[symmetric])
    have pure: "RandomCase_tokens L c p (drop k xs) g =
                  (v # fst (RandomCase_tokens L c p (drop (Suc k) xs) (snd r)),
                   snd (RandomCase_tokens L c p (drop (Suc k) xs) (snd r)))"
      using True by (simp add: dk split_beta r_def v_def)
    show ?thesis
      unfolding step IH xs_def[symmetric] a_def[symmetric] pure by simp
  qed
qed

lemma make_then_copy:
  assumes "slice_ok h tokens"
  shows "copy_tokens (snd (make_tokens h (len tokens))) (fst (make_tokens h (len tokens))) tokens =
         h @ [contents h tokens]"
proof -
  from assms have b: "base tokens < length h" by (simp add: slice_ok_def)
  have c: "contents (h @ [replicate (len tokens) \<lparr>Type = [], Value = []\<rparr>]) tokens =
           contents h tokens"
    using b by (rule contents_append)
  from contents_length[OF assms] show ?thesis
    by (simp add: copy_tokens_def make_tokens_def c Let_def)
qed

lemma RandomCase_loop_store_whole:
  assumes "slice_ok h tokens"
  shows "RandomCase_loop_store L c p tokens \<lparr>base = length h, off = 0, len = len tokens\<rparr>
           [0..<len tokens] (h @ [contents h tokens]) g =
         (h @ [fst (RandomCase_tokens L c p (contents h tokens) g)],
          snd (RandomCase_tokens L c p (contents h tokens) g))"
proof (cases tokens)
  case (fields bt ot n)
  from assms fields have b: "bt < length h" and l: "ot + n \<le> length (h ! bt)"
    by (simp_all add: slice_ok_def)
  define xs where "xs = take n (drop ot (h ! bt))"
  define h2 where "h2 = h @ [xs]"
  have h2bt: "h2 ! bt = h ! bt" using b by (simp add: h2_def nth_append)
  have h2b: "h2 ! length h = xs" by (simp add: h2_def)
  have n: "length xs = n" using l by (simp add: xs_def)
  have "RandomCase_loop_store L c p \<lparr>base = bt, off = ot, len = n\<rparr>
          \<lparr>base = length h, off = 0, len = n\<rparr> [0..<n] h2 g =
        (h2[length h := take 0 (h2 ! length h) @
              fst (RandomCase_tokens L c p (drop 0 (take n (drop ot (h2 ! bt)))) g)],
         snd (RandomCase_tokens L c p (drop 0 (take n (drop ot (h2 ! bt)))) g))"
    apply (rule RandomCase_loop_store_refines)
    using b l n by (simp_all add: h2bt h2b) (simp_all add: h2_def xs_def)
  then have "RandomCase_loop_store L c p \<lparr>base = bt, off = ot, len = n\<rparr>
          \<lparr>base = length h, off = 0, len = n\<rparr> [0..<n] h2 g =
        (h @ [fst (RandomCase_tokens L c p xs g)], snd (RandomCase_tokens L c p xs g))"
    unfolding h2bt xs_def[symmetric] by (simp add: h2_def)
  then show ?thesis
    by (simp add: fields contents_def xs_def h2_def)
qed

text \<open>
  Apply over the store, in terms of Apply over token lists: on success the result is a new
  array at the end of the store; on an error the slice of the caller is returned.
\<close>

lemma RandomCase_Apply_store_eq:
  assumes ok: "slice_ok h tokens"
  shows "RandomCase_Apply_store L h tokens cfg g =
     (case RandomCase_Apply L (contents h tokens) cfg g of
        ((out, None), g1) \<Rightarrow>
          (((\<lparr>base = length h, off = 0, len = len tokens\<rparr>, None), h @ [out]), g1)
      | ((out, Some e), g1) \<Rightarrow> (((tokens, Some e), h @ [contents h tokens]), g1))"
proof -
  have mk: "make_tokens h (len tokens) =
            (\<lparr>base = length h, off = 0, len = len tokens\<rparr>, snd (make_tokens h (len tokens)))"
    by (simp add: make_tokens_def)
  have cp: "copy_tokens (snd (make_tokens h (len tokens)))
              \<lparr>base = length h, off = 0, len = len tokens\<rparr> tokens = h @ [contents h tokens]"
    using make_then_copy[OF ok] by (simp add: make_tokens_def)
  show ?thesis
    unfolding RandomCase_Apply_store_def RandomCase_Apply_def
    apply (subst mk)
    apply (simp only: Let_def prod.case cp RandomCase_loop_store_whole[OF ok])
    by (simp add: split_beta split: sum.splits)
qed

lemma RandomCase_Apply_store_refines:
  assumes ok: "slice_ok h tokens"
    and ap: "RandomCase_Apply_store L h tokens cfg g = (((ret, err), h'), g')"
  shows "take (length h) h' = h \<and>
         RandomCase_Apply L (contents h tokens) cfg g = ((contents h' ret, err), g')"
proof -
  from ok have b: "base tokens < length h" by (simp add: slice_ok_def)
  obtain out e g1 where pure: "RandomCase_Apply L (contents h tokens) cfg g = ((out, e), g1)"
    by (metis prod.exhaust)
  have lo: "length out = len tokens"
    using RandomCase_Apply_length[of L "contents h tokens" cfg g] pure contents_length[OF ok]
    by simp
  show ?thesis
  proof (cases e)
    case None
    with ap pure
    have "ret = \<lparr>base = length h, off = 0, len = len tokens\<rparr>" "err = None"
         "h' = h @ [out]" "g' = g1"
      by (simp_all add: RandomCase_Apply_store_eq[OF ok])
    with pure None lo show ?thesis by (simp add: contents_new)
  next
    case (Some x)
    with ap pure
    have r: "ret = tokens" "err = Some x" "h' = h @ [contents h tokens]" "g' = g1"
      by (auto simp: RandomCase_Apply_store_eq[OF ok])
    have "out = contents h tokens"
      using pure Some
      by (auto simp: RandomCase_Apply_def split_beta split: sum.splits if_splits)
    with r pure Some b show ?thesis by (simp add: contents_append)
  qed
qed

lemma registry_store_cases:
  "(n, f) \<in> set (modifiers_All_store L) \<Longrightarrow>
   (n = ''CharacterInsertion'' \<and> f = CharacterInsertion_Apply_store L) \<or>
   (n = ''RandomCase'' \<and> f = RandomCase_Apply_store L) \<or>
   (n \<in> Name ` set (modifiers_All L) \<and> n \<noteq> ''CharacterInsertion'' \<and> n \<noteq> ''RandomCase'' \<and>
    f = stub_Apply_store)"
  by (auto simp: modifiers_All_store_def modifiers_All_def CharacterInsertion_def
      RandomCase_def FilePathTransformer_def OptionCharSubstitution_def QuoteInsertion_def
      Regex_def ReorderArgs_def Sed_def Shorthands_def UrlTransformer_def)

text \<open>
  Claim C8. For every registered modifier and every slice of tokens in the store, after
  Apply every array that was in the store before the call is as it was, so the tokens of
  the caller's slice are element for element unchanged; what Apply returns, read in the
  store after the call, is the result of Apply on the list of the caller's tokens.
\<close>

theorem modifiers_leave_input_unchanged:
  "\<forall>(name, apply)\<in>set (modifiers_All_store L). slice_ok h tokens \<longrightarrow>
     apply h tokens cfg g = (((ret, err), h'), g') \<longrightarrow>
     take (length h) h' = h \<and> contents h' tokens = contents h tokens \<and>
     (\<exists>m\<in>set (modifiers_All L). Name m = name \<and>
        Apply m (contents h tokens) cfg g = ((contents h' ret, err), g'))"
proof (intro ballI, clarify)
  fix n f
  assume nf: "(n, f) \<in> set (modifiers_All_store L)" and ok: "slice_ok h tokens"
    and ap: "f h tokens cfg g = (((ret, err), h'), g')"
  from ok have b: "base tokens < length h" by (simp add: slice_ok_def)
  have frame: "take (length h) h' = h \<Longrightarrow> contents h' tokens = contents h tokens"
    using b by (metis append_take_drop_id contents_append)
  from registry_store_cases[OF nf]
  consider (ci) "n = ''CharacterInsertion''" "f = CharacterInsertion_Apply_store L"
    | (rc) "n = ''RandomCase''" "f = RandomCase_Apply_store L"
    | (stub) "n \<in> Name ` set (modifiers_All L)" "n \<noteq> ''CharacterInsertion''"
        "n \<noteq> ''RandomCase''" "f = stub_Apply_store"
    by blast
  then show "take (length h) h' = h \<and> contents h' tokens = contents h tokens \<and>
     (\<exists>m\<in>set (modifiers_All L). Name m = n \<and>
        Apply m (contents h tokens) cfg g = ((contents h' ret, err), g'))"
  proof cases
    case ci
    from ci ap
    have r: "ret = tokens" "h' = h" "g' = g"
      "err = snd (fst (CharacterInsertion_Apply L (contents h tokens) cfg g))"
      by (auto simp: CharacterInsertion_Apply_store_def)
    have "CharacterInsertion_Apply L (contents h tokens) cfg g = ((contents h tokens, err), g)"
      using CharacterInsertion_Apply_fails[of L "contents h tokens" cfg g] r(4) by auto
    with r ci registry_members(1)[of L] show ?thesis
      by (auto simp: CharacterInsertion_def intro!: bexI[of _ "CharacterInsertion L"])
  next
    case rc
    from RandomCase_Apply_store_refines[OF ok ap[unfolded rc(2)]] frame rc
      registry_members(2)[of L]
    show ?thesis by (auto simp: RandomCase_def intro!: bexI[of _ "RandomCase L"])
  next
    case stub
    then obtain m where m: "m \<in> set (modifiers_All L)" "Name m = n" by auto
    with registry_names(2)[OF m(1)] stub have am: "Apply m = stub_Apply" by simp
    from stub ap have r: "ret = tokens" "h' = h" "g' = g" "err = Some ErrNotImplemented"
      by (auto simp: stub_Apply_store_def)
    with m am show ?thesis by (auto simp: stub_Apply_def)
  qed
qed

theorem modifiers_leave_input_unchanged_witness:
  "(''RandomCase'', RandomCase_Apply_store example_lib) \<in> set (modifiers_All_store example_lib) \<and>
   slice_ok example_store \<lparr>base = 0, off = 0, len = 2\<rparr> \<and>
   fst (RandomCase_Apply_store example_lib example_store \<lparr>base = 0, off = 0, len = 2\<rparr>
          config_one example_rand) =
     ((\<lparr>base = 1, off = 0, len = 2\<rparr>, None),
      example_store @ [[\<lparr>Type = TokenTypeCommand, Value = text_of ''a.exe''\<rparr>,
                        \<lparr>Type = TokenTypeArgument, Value = text_of ''-URLCACHE''\<rparr>]]) \<and>
   contents (snd (fst (RandomCase_Apply_store example_lib example_store
                         \<lparr>base = 0, off = 0, len = 2\<rparr> config_one example_rand)))
     \<lparr>base = 0, off = 0, len = 2\<rparr> =
     [\<lparr>Type = TokenTypeCommand, Value = text_of ''a.exe''\<rparr>,
      \<lparr>Type = TokenTypeArgument, Value = text_of ''-urlcache''\<rparr>]"
proof -
  let ?s = "\<lparr>base = 0, off = 0, len = 2\<rparr>"
  let ?r = "RandomCase_Apply_store example_lib example_store ?s config_one example_rand"
  have mem: "(''RandomCase'', RandomCase_Apply_store example_lib)
               \<in> set (modifiers_All_store example_lib)"
    by (simp add: modifiers_All_store_def)
  have ok: "slice_ok example_store ?s"
    by (simp add: slice_ok_def example_store_def example_tokens_def)
  have ct: "contents example_store ?s = example_tokens"
    by (simp add: contents_def example_store_def example_tokens_def)
  have c: "contents example_store ?s =
             [\<lparr>Type = TokenTypeCommand, Value = text_of ''a.exe''\<rparr>,
              \<lparr>Type = TokenTypeArgument, Value = text_of ''-urlcache''\<rparr>]"
    by (simp add: ct example_tokens_def)
  obtain out e g1 where p:
    "RandomCase_Apply example_lib (contents example_store ?s) config_one example_rand =
       ((out, e), g1)"
    by (metis prod.exhaust)
  with RandomCase_Apply_example ct
  have oe: "out = [\<lparr>Type = TokenTypeCommand, Value = text_of ''a.exe''\<rparr>,
                   \<lparr>Type = TokenTypeArgument, Value = text_of ''-URLCACHE''\<rparr>]" "e = None"
    by simp_all
  have f: "fst ?r = ((\<lparr>base = 1, off = 0, len = 2\<rparr>, None), example_store @ [out])"
    using p oe(2) by (simp add: RandomCase_Apply_store_eq[OF ok]) (simp add: example_store_def)
  then have ap: "?r = (((\<lparr>base = 1, off = 0, len = 2\<rparr>, None), example_store @ [out]), snd ?r)"
    by (metis prod.collapse)
  from modifiers_leave_input_unchanged[of example_lib example_store ?s config_one
         example_rand "\<lparr>base = 1, off = 0, len = 2\<rparr>" None "example_store @ [out]" "snd ?r"]
    mem ok ap
  have "contents (example_store @ [out]) ?s = contents example_store ?s"
    by fast
  with mem ok f oe c show ?thesis by simp
qed

section \<open>Obfuscate: the profile it runs on, and CharacterInsertion\<close>

lemma strings_Fields_scenario_A:
  "strings_Fields scenario_A =
     [text_of ''certutil.exe'', text_of ''-urlcache'', text_of ''-f'',
      text_of ''https://example.com'', text_of ''output.bin'']"
  by (simp add: scenario_A_def strings_Fields_def text_of_def unicode_IsSpace_def)

lemma apply_modifiers_none_configured:
  "\<forall>m\<in>set mods. Modifiers (Parameters profile) (Name m) = None \<Longrightarrow>
   apply_modifiers profile enabled mods tokens result g = (tokens, result, g)"
  by (induction mods) auto

text \<open>
  Claim C9. The example file holds a variant for Linux and then one for Windows. pickProfile
  returns the first, the one for Linux, and Obfuscate runs on it: no modifier is configured
  there, none is applied and the command comes back as it was. Obfuscate takes no host
  platform, so this is what it does on a Windows host too. With the variant for Windows
  first, RandomCase is applied.
\<close>

theorem Obfuscate_runs_on_first_profile:
  "Platform (pickProfile example_file) = ''linux'' \<and>
   (\<exists>p\<in>set (Profiles example_file). Platform p = ''windows'') \<and>
   fst (Obfuscate (modifiers_All example_lib) scenario_A (Some example_file)
          example_enabled example_rand) =
     (\<lparr>Output = scenario_A, Applied = [], Skipped = [], Errors = Map.empty\<rparr>, None) \<and>
   fst (Obfuscate (modifiers_All example_lib) scenario_A
          (Some \<lparr>Profiles = [example_profile, linux_profile]\<rparr>) example_enabled example_rand) =
     (\<lparr>Output = text_of ''certutil.exe -URLCACHE -F HTTPS://EXAMPLE.COM OUTPUT.BIN'',
       Applied = [''RandomCase''], Skipped = [''CharacterInsertion''], Errors = Map.empty\<rparr>,
      None)"
proof (intro conjI)
  show "Platform (pickProfile example_file) = ''linux''"
    by (simp add: pickProfile_def example_file_def linux_profile_def)
  show "\<exists>p\<in>set (Profiles example_file). Platform p = ''windows''"
    by (simp add: example_file_def example_profile_def)
  have none: "\<forall>m\<in>set (modifiers_All example_lib).
                Modifiers (Parameters linux_profile) (Name m) = None"
    by (simp add: linux_profile_def)
  have r: "strings_Join (strings_Fields scenario_A) [Rune 32] = scenario_A"
    by (simp add: strings_Fields_scenario_A) (simp add: scenario_A_def text_of_def)
  show "fst (Obfuscate (modifiers_All example_lib) scenario_A (Some example_file)
          example_enabled example_rand) =
     (\<lparr>Output = scenario_A, Applied = [], Skipped = [], Errors = Map.empty\<rparr>, None)"
    using r
    by (simp add: Obfuscate_def example_file_def pickProfile_def Tokenize_def
        strings_Fields_scenario_A apply_modifiers_none_configured[OF none] Render_def
        zero_ObfuscateResult_def comp_def)
  show "fst (Obfuscate (modifiers_All example_lib) scenario_A
          (Some \<lparr>Profiles = [example_profile, linux_profile]\<rparr>) example_enabled example_rand) =
     (\<lparr>Output = text_of ''certutil.exe -URLCACHE -F HTTPS://EXAMPLE.COM OUTPUT.BIN'',
       Applied = [''RandomCase''], Skipped = [''CharacterInsertion''], Errors = Map.empty\<rparr>,
      None)"
    by (simp add: Obfuscate_def pickProfile_def Tokenize_def strings_Fields_scenario_A
        modifiers_All_def CharacterInsertion_def RandomCase_def FilePathTransformer_def
        OptionCharSubstitution_def QuoteInsertion_def Regex_def ReorderArgs_def Sed_def
        Shorthands_def UrlTransformer_def example_profile_def example_enabled_def
        enabled_at_def CharacterInsertion_Apply_def RandomCase_Apply_def example_lib_def
        config_insert_def config_one_def config_zero_def example_rand_def rand_Float64_def
        TokenTypeCommand_def TokenTypeArgument_def text_of_def flip_case_def
        unicode_IsUpper_def unicode_ToUpper_def unicode_ToLower_def MaxASCII_def split_beta
        runes_of_def string_of_def valid_rune_def Render_def zero_ObfuscateResult_def)
qed

text \<open>
  Claim C10. For every token sequence and every raw configuration, CharacterInsertion.Apply
  returns the sequence it was given and an error. The error is ErrNotImplemented exactly
  when the configuration decodes, Probability parses as a float that is neither below 0 nor
  above 1, and Offset parses as an integer; otherwise it is the error of the step that
  failed. The pool of characters is never read. With the ten registered modifiers, Obfuscate
  never lists CharacterInsertion under Applied, and when it returns no error and the
  modifier is enabled and configured, it lists it under Skipped or in Errors.
\<close>

theorem CharacterInsertion_never_applied:
  "(\<exists>e. CharacterInsertion_Apply L tokens cfg g = ((tokens, Some e), g) \<and>
     (errors_Is e ErrNotImplemented \<longleftrightarrow>
        (\<exists>cfgM p offset. json_Unmarshal_CharInsert L cfg = Inr cfgM \<and>
           strconv_ParseFloat L (Probability cfgM) = Inr p \<and>
           \<not> f64_less p (Fin 0) \<and> \<not> f64_less (Fin 1) p \<and>
           strconv_Atoi L (Offset cfgM) = Inr offset))) \<and>
   (Obfuscate (modifiers_All L) command pf enabled g0 = ((result, err), g1) \<longrightarrow>
      ''CharacterInsertion'' \<notin> set (Applied result) \<and>
      (pf = Some pf' \<and> err = None \<and> enabled_at enabled ''CharacterInsertion'' \<and>
       Modifiers (Parameters (pickProfile pf')) ''CharacterInsertion'' \<noteq> None \<longrightarrow>
         ''CharacterInsertion'' \<in> set (Skipped result) \<union> dom (Errors result)))"
proof (intro conjI impI)
  show "\<exists>e. CharacterInsertion_Apply L tokens cfg g = ((tokens, Some e), g) \<and>
     (errors_Is e ErrNotImplemented \<longleftrightarrow>
        (\<exists>cfgM p offset. json_Unmarshal_CharInsert L cfg = Inr cfgM \<and>
           strconv_ParseFloat L (Probability cfgM) = Inr p \<and>
           \<not> f64_less p (Fin 0) \<and> \<not> f64_less (Fin 1) p \<and>
           strconv_Atoi L (Offset cfgM) = Inr offset))"
    by (auto simp: CharacterInsertion_Apply_def split: sum.splits)
next
  have never: "\<forall>m\<in>set (modifiers_All L). Name m = ''CharacterInsertion'' \<longrightarrow>
      (\<forall>t c g'. snd (fst (Apply m t c g')) \<noteq> None)"
  proof (intro ballI impI allI)
    fix m t c g'
    assume "m \<in> set (modifiers_All L)" "Name m = ''CharacterInsertion''"
    then have "Apply m = CharacterInsertion_Apply L" by (rule registry_names(1))
    with CharacterInsertion_Apply_fails[of L t c g']
    show "snd (fst (Apply m t c g')) \<noteq> None" by auto
  qed
  assume ob: "Obfuscate (modifiers_All L) command pf enabled g0 = ((result, err), g1)"
  have run: "err = None \<Longrightarrow> \<exists>pf'' tokens0 tokens1 r1. pf = Some pf'' \<and>
      apply_modifiers (pickProfile pf'') enabled (modifiers_All L) tokens0
        zero_ObfuscateResult g0 = (tokens1, r1, g1) \<and>
      result = r1\<lparr>Output := Render tokens1\<rparr>"
    using ob
    by (auto simp: Obfuscate_def Let_def split: option.splits if_splits sum.splits prod.splits)
  have zero: "err \<noteq> None \<Longrightarrow> result = zero_ObfuscateResult"
    using ob
    by (auto simp: Obfuscate_def Let_def split: option.splits if_splits sum.splits prod.splits)
  show na: "''CharacterInsertion'' \<notin> set (Applied result)"
  proof (cases err)
    case (Some e)
    with zero show ?thesis by (simp add: zero_ObfuscateResult_def)
  next
    case None
    from run[OF None] obtain pf'' tokens0 tokens1 r1 where
      r: "apply_modifiers (pickProfile pf'') enabled (modifiers_All L) tokens0
            zero_ObfuscateResult g0 = (tokens1, r1, g1)"
      and res: "result = r1\<lparr>Output := Render tokens1\<rparr>" by blast
    from apply_modifiers_not_applied[OF r _ never] res show ?thesis
      by (simp add: zero_ObfuscateResult_def)
  qed
  assume h: "pf = Some pf' \<and> err = None \<and> enabled_at enabled ''CharacterInsertion'' \<and>
       Modifiers (Parameters (pickProfile pf')) ''CharacterInsertion'' \<noteq> None"
  from run h obtain tokens0 tokens1 r1 where
      r: "apply_modifiers (pickProfile pf') enabled (modifiers_All L) tokens0
            zero_ObfuscateResult g0 = (tokens1, r1, g1)"
      and res: "result = r1\<lparr>Output := Render tokens1\<rparr>" by auto
  have nm: "Name (CharacterInsertion L) = ''CharacterInsertion''"
    by (simp add: CharacterInsertion_def)
  from apply_modifiers_covers[OF r] registry_members(1)[of L] h nm
  have "''CharacterInsertion'' \<in> set (Applied r1) \<union> set (Skipped r1) \<union> dom (Errors r1)"
    by (metis (no_types, lifting))
  with na res show "''CharacterInsertion'' \<in> set (Skipped result) \<union> dom (Errors result)"
    by simp
qed

theorem CharacterInsertion_never_applied_witness:
  "CharacterInsertion_Apply example_lib example_tokens
     config_insert example_rand =
     ((example_tokens, Some ErrNotImplemented),
      example_rand) \<and>
   (\<exists>e. CharacterInsertion_Apply example_lib
           example_tokens config_invalid example_rand =
           ((example_tokens, Some e), example_rand) \<and>
         \<not> errors_Is e ErrNotImplemented) \<and>
   enabled_at example_enabled ''CharacterInsertion'' \<and>
   Modifiers (Parameters (pickProfile \<lparr>Profiles = [example_profile]\<rparr>)) ''CharacterInsertion''
     \<noteq> None \<and>
   snd (fst (Obfuscate (modifiers_All example_lib) scenario_A
               (Some \<lparr>Profiles = [example_profile]\<rparr>) example_enabled example_rand)) = None \<and>
   ''CharacterInsertion'' \<notin> set (Applied (fst (fst
       (Obfuscate (modifiers_All example_lib) scenario_A
          (Some \<lparr>Profiles = [example_profile]\<rparr>) example_enabled example_rand)))) \<and>
   ''CharacterInsertion'' \<in>
     set (Skipped (fst (fst
       (Obfuscate (modifiers_All example_lib) scenario_A
          (Some \<lparr>Profiles = [example_profile]\<rparr>) example_enabled example_rand)))) \<union>
     dom (Errors (fst (fst
       (Obfuscate (modifiers_All example_lib) scenario_A
          (Some \<lparr>Profiles = [example_profile]\<rparr>) example_enabled example_rand))))"
proof -
  let ?ts = "example_tokens"
  let ?pf = "\<lparr>Profiles = [example_profile]\<rparr>"
  let ?r = "Obfuscate (modifiers_All example_lib) scenario_A (Some ?pf) example_enabled
              example_rand"
  have a: "CharacterInsertion_Apply example_lib ?ts config_insert example_rand =
             ((?ts, Some ErrNotImplemented), example_rand)"
    by (simp add: CharacterInsertion_Apply_def example_lib_def config_insert_def
        config_one_def config_zero_def)
  have b: "CharacterInsertion_Apply example_lib ?ts config_invalid example_rand =
             ((?ts, Some (wrapError ''unmarshal config: %w''
                            (External (LibError ''json: invalid input'')))), example_rand)"
    by (simp add: CharacterInsertion_Apply_def example_lib_def config_insert_def
        config_one_def config_zero_def config_invalid_def)
  have en: "enabled_at example_enabled ''CharacterInsertion''"
    by (simp add: enabled_at_def example_enabled_def)
  have cf: "Modifiers (Parameters (pickProfile ?pf)) ''CharacterInsertion'' \<noteq> None"
    by (simp add: pickProfile_def example_profile_def)
  have t: "strings_TrimSpace scenario_A \<noteq> []"
    by (simp add: strings_TrimSpace_def scenario_A_def text_of_def unicode_IsSpace_def)
  have ok: "snd (fst ?r) = None"
  proof -
    obtain tokens where "Tokenize scenario_A (pickProfile ?pf) = Inr tokens"
      using t Tokenize_error[of scenario_A "pickProfile ?pf"]
      by (cases "Tokenize scenario_A (pickProfile ?pf)") auto
    then show ?thesis by (simp add: Obfuscate_def split_beta Let_def)
  qed
  then have r: "?r = ((fst (fst ?r), None), snd ?r)" by (metis prod.collapse)
  from CharacterInsertion_never_applied[of example_lib ?ts config_insert example_rand
         scenario_A "Some ?pf" example_enabled example_rand "fst (fst ?r)" None "snd ?r" ?pf]
       r en cf
  have "''CharacterInsertion'' \<notin> set (Applied (fst (fst ?r))) \<and>
        ''CharacterInsertion'' \<in> set (Skipped (fst (fst ?r))) \<union> dom (Errors (fst (fst ?r)))"
    by blast
  with a b en cf ok show ?thesis by simp
qed

end
